theory Spec2Isabelle
  imports Main
begin

section \<open>Python strings\<close>

text \<open>
  A Python \<open>str\<close> is a sequence of code points. The model uses \<^typ>\<open>string\<close>, whose
  characters are the code points 0 to 255; the three character classes below are the ones
  the interpreter uses on that range (\<open>str.isspace\<close>, the \<open>\w\<close> class of \<open>re\<close> on a
  \<open>str\<close> pattern, and \<open>str.lower\<close>).
\<close>

definition is_space :: "char \<Rightarrow> bool" where
  "is_space c =
     (let n = (of_char c :: nat)
      in (9 \<le> n \<and> n \<le> 13) \<or> (28 \<le> n \<and> n \<le> 32) \<or> n = 133 \<or> n = 160)"

definition is_word :: "char \<Rightarrow> bool" where
  "is_word c =
     (let n = (of_char c :: nat)
      in (48 \<le> n \<and> n \<le> 57) \<or> (65 \<le> n \<and> n \<le> 90) \<or> n = 95 \<or> (97 \<le> n \<and> n \<le> 122)
         \<or> n = 170 \<or> n = 178 \<or> n = 179 \<or> n = 181 \<or> n = 185 \<or> n = 186
         \<or> (188 \<le> n \<and> n \<le> 190) \<or> (192 \<le> n \<and> n \<le> 214) \<or> (216 \<le> n \<and> n \<le> 246)
         \<or> (248 \<le> n \<and> n \<le> 255))"

definition to_lower :: "char \<Rightarrow> char" where
  "to_lower c =
     (let n = (of_char c :: nat)
      in if (65 \<le> n \<and> n \<le> 90) \<or> (192 \<le> n \<and> n \<le> 214) \<or> (216 \<le> n \<and> n \<le> 222)
         then char_of (n + 32) else c)"

text \<open>\<open>s.strip()\<close>: leading and trailing whitespace removed.\<close>

definition strip :: "string \<Rightarrow> string" where
  "strip s = rev (dropWhile is_space (rev (dropWhile is_space s)))"

text \<open>\<open>s.lower()\<close>.\<close>

definition lower :: "string \<Rightarrow> string" where
  "lower s = map to_lower s"

text \<open>\<open>s.split(d)\<close> for a one-character delimiter: never an empty list.\<close>

fun split :: "char \<Rightarrow> string \<Rightarrow> string list" where
  "split d [] = [[]]"
| "split d (c # cs) =
     (if c = d then [] # split d cs
      else (case split d cs of
              [] \<Rightarrow> [[c]]
            | x # xs \<Rightarrow> (c # x) # xs))"

text \<open>\<open>sep.join(xs)\<close>.\<close>

fun join :: "string \<Rightarrow> string list \<Rightarrow> string" where
  "join sep [] = []"
| "join sep [x] = x"
| "join sep (x # y # ys) = x @ sep @ join sep (y # ys)"

text \<open>\<open>os.path.join(a, b)\<close> for a relative \<open>b\<close>, as every call of the program has it.\<close>

definition path_join :: "string \<Rightarrow> string \<Rightarrow> string" where
  "path_join a b = a @ ''/'' @ b"

section \<open>Data model (models.py)\<close>

text \<open>
  The two mapped classes. The primary key column \<open>id\<close> is the field \<open>pk\<close>. Nullable
  columns the program reads as possibly \<open>None\<close> are options. Both classes have the
  columns \<open>request_id\<close> and \<open>status\<close>; they are written with the record's name in front.
\<close>

record processing_request =
  pk :: nat
  request_id :: string
  status :: string
  created_at :: nat
  completed_at :: "nat option"
  callback_url :: "string option"

record product =
  pk :: nat
  request_id :: string
  serial_number :: string
  product_name :: string
  input_image_urls :: "string option"
  output_image_urls :: "string option"
  status :: string

text \<open>
  The committed content of the database: the two tables in insertion order, and the
  sequences that give the next primary key of each.
\<close>

record db =
  requests :: "processing_request list"
  products :: "product list"
  request_seq :: nat
  product_seq :: nat

definition empty_db :: db where
  "empty_db = \<lparr>requests = [], products = [], request_seq = 1, product_seq = 1\<rparr>"

section \<open>The environment and the state of the service\<close>

datatype http_result = TransportError | Response int string

record image =
  mode :: string
  pixels :: string

datatype stored_file = Jpeg image nat | Csv "string list list"

datatype log_entry =
    DownloadFailed string int
  | ImageError string
  | WebhookFailed int
  | WebhookError string
  | ProcessingError string

text \<open>
  The reads of the database in the background task: the query of the products (line 73),
  the query of the request (line 105), and the read of \<open>callback_url\<close> after the
  commit (line 113). The session factory leaves \<open>expire_on_commit\<close> at its default, so
  the commit expires the loaded request and that attribute read is a SELECT again.
\<close>

datatype db_read = SelectProducts | SelectRequest | RefreshRequest

text \<open>
  Everything the program asks of the outside: each call is answered by the world at the
  current tick, and moves the tick on, so that two calls may be answered differently.
  \<open>image_open\<close> is \<open>None\<close> where \<open>Image.open\<close> raises, \<open>save_raises\<close> says where
  converting and saving raises, \<open>commit_raises\<close> where \<open>db.commit()\<close> does, and
  \<open>read_raises\<close> where a read of the database by the background task does.
\<close>

record world =
  uuid4 :: "nat \<Rightarrow> string"
  utcnow :: "nat \<Rightarrow> nat"
  http_get :: "nat \<Rightarrow> string \<Rightarrow> http_result"
  http_post :: "nat \<Rightarrow> string \<Rightarrow> http_result"
  image_open :: "string \<Rightarrow> image option"
  save_raises :: "image \<Rightarrow> bool"
  commit_raises :: "nat \<Rightarrow> bool"
  read_raises :: "db_read \<Rightarrow> nat \<Rightarrow> bool"

text \<open>
  The state: the committed database, the file system with the trace of the paths written,
  the lines printed, the GET requests sent (URL, timeout), the POST requests sent
  (URL, JSON payload, timeout) and the tick.
\<close>

record state =
  store :: db
  files :: "string \<rightharpoonup> stored_file"
  file_writes :: "string list"
  log :: "log_entry list"
  get_calls :: "(string \<times> nat) list"
  post_calls :: "(string \<times> (string \<times> string) list \<times> nat) list"
  tick :: nat

definition init_state :: state where
  "init_state =
     \<lparr>store = empty_db, files = Map.empty, file_writes = [], log = [],
      get_calls = [], post_calls = [], tick = 0\<rparr>"

definition OUTPUT_DIR :: string where
  "OUTPUT_DIR = ''output''"

definition PROCESSED_DIR :: string where
  "PROCESSED_DIR = ''processed_images''"

section \<open>routes.py\<close>

subsection \<open>normalize\<close>

text \<open>\<open>re.sub(r'\W+', '', text).lower()\<close>: every run of non-word characters is deleted.\<close>

definition normalize :: "string \<Rightarrow> string" where
  "normalize text = lower (filter is_word text)"

subsection \<open>Queries and the session\<close>

text \<open>
  \<open>db.query(Product).filter(Product.request_id == request_id).all()\<close> and
  \<open>db.query(ProcessingRequest).filter(...).first()\<close>, on the committed tables.
\<close>

definition query_products :: "string \<Rightarrow> db \<Rightarrow> product list" where
  "query_products rid d = filter (\<lambda>p. product.request_id p = rid) (products d)"

definition query_request :: "string \<Rightarrow> db \<Rightarrow> processing_request option" where
  "query_request rid d = find (\<lambda>r. processing_request.request_id r = rid) (requests d)"

text \<open>
  The session is created with \<open>autoflush=False\<close>: \<open>db.add\<close> only registers an object,
  and \<open>db.commit()\<close> writes the registered objects, each to the row of its primary key.
  Until then the committed tables are what every other session reads.
\<close>

definition flush_products :: "product list \<Rightarrow> product list \<Rightarrow> product list" where
  "flush_products dirty tbl =
     map (\<lambda>p. case find (\<lambda>q. product.pk q = product.pk p) dirty of
                 None \<Rightarrow> p
               | Some q \<Rightarrow> q) tbl"

definition flush_request ::
  "processing_request option \<Rightarrow> processing_request list \<Rightarrow> processing_request list" where
  "flush_request dirty tbl =
     (case dirty of
        None \<Rightarrow> tbl
      | Some q \<Rightarrow> map (\<lambda>r. if processing_request.pk r = processing_request.pk q then q else r) tbl)"

definition commit_updates :: "product list \<Rightarrow> processing_request option \<Rightarrow> db \<Rightarrow> db" where
  "commit_updates dirty_products dirty_request d =
     d\<lparr>requests := flush_request dirty_request (requests d),
       products := flush_products dirty_products (products d)\<rparr>"

subsection \<open>generate_output_csv\<close>

text \<open>
  The file written is kept as the list of the rows handed to \<open>csv.writer\<close>, which writes
  \<open>None\<close> as the empty field; \<open>or_empty v\<close> is \<open>v or ""\<close>.
\<close>

definition csv_field :: "string option \<Rightarrow> string" where
  "csv_field v = (case v of None \<Rightarrow> [] | Some s \<Rightarrow> s)"

definition or_empty :: "string option \<Rightarrow> string" where
  "or_empty v = (case v of None \<Rightarrow> [] | Some s \<Rightarrow> if s = [] then [] else s)"

definition output_header :: "string list" where
  "output_header = [''S. No'', ''Product Name'', ''Input Image Urls'', ''Output Image Urls'']"

definition output_row :: "product \<Rightarrow> string list" where
  "output_row p =
     [serial_number p, product_name p, csv_field (input_image_urls p),
      or_empty (output_image_urls p)]"

definition output_path :: "string \<Rightarrow> string" where
  "output_path rid = path_join OUTPUT_DIR (rid @ ''_output.csv'')"

definition generate_output_csv :: "string \<Rightarrow> state \<Rightarrow> string \<times> state" where
  "generate_output_csv rid st =
     (let prods = query_products rid (store st);
          output_file = output_path rid
      in (output_file,
          st\<lparr>files := (files st)(output_file \<mapsto> Csv (output_header # map output_row prods)),
             file_writes := file_writes st @ [output_file]\<rparr>))"

subsection \<open>process_images\<close>

text \<open>
  The body of the inner \<open>try\<close> (lines 81 to 96) for one stripped, non-empty URL: the GET
  with timeout 10, the test of the status code, \<open>Image.open\<close>, the new file name, and
  \<open>img.convert("RGB").save(new_path, format="JPEG", quality=50)\<close>. Every exception is
  caught by the \<open>except Exception\<close> of the same \<open>try\<close> and printed.
\<close>

definition convert_rgb :: "image \<Rightarrow> image" where
  "convert_rgb img = img\<lparr>mode := ''RGB''\<rparr>"

definition download_image :: "world \<Rightarrow> string \<Rightarrow> string list \<Rightarrow> state \<Rightarrow> string list \<times> state" where
  "download_image w url new_urls st =
     (let st1 = st\<lparr>get_calls := get_calls st @ [(url, 10)], tick := Suc (tick st)\<rparr>
      in case http_get w (tick st) url of
           TransportError \<Rightarrow> (new_urls, st1\<lparr>log := log st1 @ [ImageError url]\<rparr>)
         | Response status_code content \<Rightarrow>
             if status_code = 200 then
               (case image_open w content of
                  None \<Rightarrow> (new_urls, st1\<lparr>log := log st1 @ [ImageError url]\<rparr>)
                | Some img \<Rightarrow>
                    (let new_filename = uuid4 w (tick st1) @ ''.jpg'';
                         st2 = st1\<lparr>tick := Suc (tick st1)\<rparr>;
                         new_path = path_join PROCESSED_DIR new_filename
                     in if save_raises w (convert_rgb img)
                        then (new_urls, st2\<lparr>log := log st2 @ [ImageError url]\<rparr>)
                        else (new_urls @ [''/processed_images/'' @ new_filename],
                              st2\<lparr>files := (files st2)(new_path \<mapsto> Jpeg (convert_rgb img) 50),
                                  file_writes := file_writes st2 @ [new_path]\<rparr>)))
             else (new_urls, st1\<lparr>log := log st1 @ [DownloadFailed url status_code]\<rparr>))"

text \<open>The loop over \<open>input_urls\<close> (lines 77 to 96).\<close>

fun process_urls :: "world \<Rightarrow> string list \<Rightarrow> string list \<Rightarrow> state \<Rightarrow> string list \<times> state" where
  "process_urls w [] new_urls st = (new_urls, st)"
| "process_urls w (u # us) new_urls st =
     (let url = strip u
      in if url = [] then process_urls w us new_urls st
         else (case download_image w url new_urls st of
                 (new_urls', st') \<Rightarrow> process_urls w us new_urls' st'))"

text \<open>
  The body of the loop over the products (lines 75 to 100). \<open>input_image_urls\<close> is a
  nullable column: \<open>None.split\<close> raises, outside the inner \<open>try\<close>; the result is then
  \<open>Inl\<close> of the state at that point.
\<close>

definition process_product :: "world \<Rightarrow> product \<Rightarrow> state \<Rightarrow> state + product \<times> state" where
  "process_product w p st =
     (case input_image_urls p of
        None \<Rightarrow> Inl st
      | Some s \<Rightarrow>
          (case process_urls w (split CHR '','' s) [] st of
             (new_urls, st') \<Rightarrow>
               Inr (p\<lparr>output_image_urls := Some (join '','' new_urls),
                       product.status := ''processed''\<rparr>, st')))"

text \<open>
  The loop over the products (line 74); \<open>dirty\<close> are the objects registered by
  \<open>db.add(product)\<close> so far.
\<close>

fun process_products ::
  "world \<Rightarrow> product list \<Rightarrow> product list \<Rightarrow> state \<Rightarrow> state + product list \<times> state" where
  "process_products w [] dirty st = Inr (dirty, st)"
| "process_products w (p # ps) dirty st =
     (case process_product w p st of
        Inl st' \<Rightarrow> Inl st'
      | Inr (p', st') \<Rightarrow> process_products w ps (dirty @ [p']) st')"

text \<open>The webhook (lines 113 to 123), for a callback URL that is set and not empty.\<close>

definition webhook_payload :: "string \<Rightarrow> (string \<times> string) list" where
  "webhook_payload rid = [(''request_id'', rid), (''status'', ''completed'')]"

definition call_webhook :: "world \<Rightarrow> string \<Rightarrow> string \<Rightarrow> state \<Rightarrow> state" where
  "call_webhook w rid url st =
     (let st1 = st\<lparr>post_calls := post_calls st @ [(url, webhook_payload rid, 5)],
                  tick := Suc (tick st)\<rparr>
      in case http_post w (tick st) url of
           TransportError \<Rightarrow> st1\<lparr>log := log st1 @ [WebhookError rid]\<rparr>
         | Response status_code content \<Rightarrow>
             if status_code < 200 \<or> status_code \<ge> 300
             then st1\<lparr>log := log st1 @ [WebhookFailed status_code]\<rparr>
             else st1)"

text \<open>
  Lines 105 to 109: the request is read again, and when there is one it is completed in
  the session.
\<close>

definition complete_request ::
  "world \<Rightarrow> string \<Rightarrow> state \<Rightarrow> processing_request option \<times> state" where
  "complete_request w rid st =
     (case query_request rid (store st) of
        None \<Rightarrow> (None, st)
      | Some r \<Rightarrow>
          (Some (r\<lparr>processing_request.status := ''completed'',
                    completed_at := Some (utcnow w (tick st))\<rparr>),
           st\<lparr>tick := Suc (tick st)\<rparr>))"

text \<open>
  The whole background task. An exception that reaches the outer \<open>except\<close> prints
  one line after \<open>db.rollback()\<close>, which discards what the session has registered and
  not committed: every exit before the commit, and the failing commit itself, leave the
  committed tables as they were. The condition of line 113 is evaluated after the commit
  and outside the inner \<open>try\<close>: when the request exists, reading its \<open>callback_url\<close>
  reads the database, and an exception there reaches the outer handler with the commit
  already done and no POST sent.
\<close>

definition process_images :: "world \<Rightarrow> string \<Rightarrow> state \<Rightarrow> state" where
  "process_images w rid st =
     (if read_raises w SelectProducts (tick st)
      then st\<lparr>log := log st @ [ProcessingError rid]\<rparr>
      else
        (case process_products w (query_products rid (store st)) [] st of
           Inl st1 \<Rightarrow> st1\<lparr>log := log st1 @ [ProcessingError rid]\<rparr>
         | Inr (dirty, st1) \<Rightarrow>
             if read_raises w SelectRequest (tick st1)
             then st1\<lparr>log := log st1 @ [ProcessingError rid]\<rparr>
             else
               (case complete_request w rid st1 of
                  (processing_request, st2) \<Rightarrow>
                    if commit_raises w (tick st2)
                    then st2\<lparr>tick := Suc (tick st2), log := log st2 @ [ProcessingError rid]\<rparr>
                    else
                      (let st3 = st2\<lparr>store := commit_updates dirty processing_request (store st2),
                                    tick := Suc (tick st2)\<rparr>
                       in case processing_request of
                            None \<Rightarrow> st3
                          | Some r \<Rightarrow>
                              if read_raises w RefreshRequest (tick st3)
                              then st3\<lparr>log := log st3 @ [ProcessingError rid]\<rparr>
                              else
                                (case callback_url r of
                                   None \<Rightarrow> st3
                                 | Some url \<Rightarrow>
                                     if url = [] then st3 else call_webhook w rid url st3)))))"

text \<open>
  The state the task is in after the first \<open>k\<close> products of the loop: the objects
  registered so far, and the state every other session sees.
\<close>

definition after_products ::
  "world \<Rightarrow> string \<Rightarrow> nat \<Rightarrow> state \<Rightarrow> state + product list \<times> state" where
  "after_products w rid k st =
     process_products w (take k (query_products rid (store st))) [] st"

subsection \<open>upload_csv\<close>

datatype json = JNull | JStr string | JNum nat | JArr "json list" | JObj "(string \<times> json) list"

record http_exception =
  status_code :: nat
  detail :: string

definition expected_header :: "string list" where
  "expected_header = [''sno'', ''productname'', ''inputimageurls'']"

text \<open>
  The loop over the data rows (lines 166 to 177): a row that has not exactly three fields
  raises; the others are registered in the session, their primary key not yet given.
\<close>

fun add_products :: "string \<Rightarrow> string list list \<Rightarrow> product list \<Rightarrow> http_exception + product list" where
  "add_products rid [] pending = Inr pending"
| "add_products rid (row # rows) pending =
     (if length row \<noteq> 3
      then Inl \<lparr>status_code = 400, detail = ''CSV row does not have exactly 3 columns.''\<rparr>
      else add_products rid rows
             (pending @
              [\<lparr>product.pk = 0, product.request_id = rid,
                serial_number = strip (row ! 0), product_name = strip (row ! 1),
                input_image_urls = Some (strip (row ! 2)), output_image_urls = None,
                product.status = ''pending''\<rparr>]))"

text \<open>The INSERTs of a commit: each new row takes the next value of the sequence.\<close>

fun assign_pks :: "nat \<Rightarrow> product list \<Rightarrow> product list" where
  "assign_pks n [] = []"
| "assign_pks n (p # ps) = p\<lparr>product.pk := n\<rparr> # assign_pks (Suc n) ps"

definition commit_inserts :: "processing_request \<Rightarrow> product list \<Rightarrow> db \<Rightarrow> db" where
  "commit_inserts new_request pending d =
     \<lparr>requests = requests d @ [new_request\<lparr>processing_request.pk := request_seq d\<rparr>],
      products = products d @ assign_pks (product_seq d) pending,
      request_seq = Suc (request_seq d),
      product_seq = product_seq d + length pending\<rparr>"

text \<open>
  The endpoint, given the content type of the upload, the rows \<open>csv.reader\<close> yields for
  its decoded content, and the optional \<open>webhook_url\<close>. An \<open>HTTPException\<close> raised
  before the commit leaves the session to be closed without one.
  \<open>request_id\<close> is a unique column: the commit raises as well when the new value is
  already there.
\<close>

definition upload_csv ::
  "world \<Rightarrow> string \<Rightarrow> string list list \<Rightarrow> string option \<Rightarrow> state
     \<Rightarrow> (http_exception + json) \<times> state" where
  "upload_csv w content_type csv_reader webhook_url st =
     (if content_type \<noteq> ''text/csv''
      then (Inl \<lparr>status_code = 400,
                 detail = ''Invalid file type. Only CSV files are accepted.''\<rparr>, st)
      else
        (case csv_reader of
           [] \<Rightarrow> (Inl \<lparr>status_code = 400, detail = ''CSV file is empty.''\<rparr>, st)
         | header # rows \<Rightarrow>
             if map normalize header \<noteq> expected_header
             then (Inl \<lparr>status_code = 400,
                        detail = ''Invalid CSV header format. Expected header: S. No, Product Name, Input Image Urls''\<rparr>,
                   st)
             else
               (let rid = uuid4 w (tick st);
                    st1 = st\<lparr>tick := Suc (tick st)\<rparr>;
                    new_request =
                      \<lparr>processing_request.pk = 0, processing_request.request_id = rid,
                       processing_request.status = ''pending'',
                       created_at = utcnow w (tick st1), completed_at = None,
                       callback_url = webhook_url\<rparr>
                in case add_products rid rows [] of
                     Inl e \<Rightarrow> (Inl e, st1)
                   | Inr pending \<Rightarrow>
                       if commit_raises w (tick st1)
                          \<or> rid \<in> set (map processing_request.request_id (requests (store st1)))
                       then (Inl \<lparr>status_code = 500,
                                  detail = ''Error saving request and product data.''\<rparr>,
                             st1\<lparr>tick := Suc (tick st1)\<rparr>)
                       else (Inr (JObj [(''request_id'', JStr rid),
                                        (''message'', JStr ''CSV file uploaded and processing started.'')]),
                             st1\<lparr>store := commit_inserts new_request pending (store st1),
                                 tick := Suc (tick st1)\<rparr>))))"

subsection \<open>get_status and download_output_csv\<close>

definition json_opt :: "string option \<Rightarrow> json" where
  "json_opt v = (case v of None \<Rightarrow> JNull | Some s \<Rightarrow> JStr s)"

definition product_data :: "product \<Rightarrow> json" where
  "product_data p =
     JObj [(''serial_number'', JStr (serial_number p)),
           (''product_name'', JStr (product_name p)),
           (''input_image_urls'', json_opt (input_image_urls p)),
           (''output_image_urls'', json_opt (output_image_urls p)),
           (''status'', JStr (product.status p))]"

definition get_status :: "string \<Rightarrow> state \<Rightarrow> (http_exception + json) \<times> state" where
  "get_status rid st =
     (case query_request rid (store st) of
        None \<Rightarrow> (Inl \<lparr>status_code = 404, detail = ''Request not found''\<rparr>, st)
      | Some r \<Rightarrow>
          (let response =
                 [(''request_id'', JStr (processing_request.request_id r)),
                  (''status'', JStr (processing_request.status r)),
                  (''created_at'', JNum (created_at r)),
                  (''completed_at'', (case completed_at r of None \<Rightarrow> JNull | Some t \<Rightarrow> JNum t)),
                  (''callback_url'', json_opt (callback_url r)),
                  (''products'', JArr (map product_data (query_products rid (store st))))]
           in if processing_request.status r = ''completed''
              then (Inr (JObj (response @ [(''output_csv_link'', JStr (''/download/'' @ rid))])),
                    (if files st (output_path rid) = None
                     then snd (generate_output_csv rid st) else st))
              else (Inr (JObj response), st)))"

definition download_output_csv :: "string \<Rightarrow> state \<Rightarrow> http_exception + stored_file" where
  "download_output_csv rid st =
     (case files st (output_path rid) of
        None \<Rightarrow> Inl \<lparr>status_code = 404, detail = ''Output CSV not found.''\<rparr>
      | Some f \<Rightarrow> Inr f)"

section \<open>Reachable states\<close>

text \<open>
  The states the service can be in: it starts with empty tables and no files, and every
  call of an endpoint and every run of the background task, for any arguments and in any
  order, leads from a reachable state to a reachable state.
\<close>

inductive reachable :: "world \<Rightarrow> state \<Rightarrow> bool" for w :: world where
  init: "reachable w init_state"
| upload: "reachable w st \<Longrightarrow> reachable w (snd (upload_csv w content_type csv_reader webhook_url st))"
| process: "reachable w st \<Longrightarrow> reachable w (process_images w rid st)"
| status: "reachable w st \<Longrightarrow> reachable w (snd (get_status rid st))"

section \<open>Auxiliary definitions\<close>

text \<open>
  What the docstring of \<open>normalize\<close> says it does: ``Remove non-alphanumeric characters
  and convert to lowercase''. The underscore is a word character and not an alphanumeric
  one.
\<close>

definition is_alnum :: "char \<Rightarrow> bool" where
  "is_alnum c = (is_word c \<and> c \<noteq> CHR ''_'')"

definition normalize_documented :: "string \<Rightarrow> string" where
  "normalize_documented text = lower (filter is_alnum text)"

text \<open>\<open>processed_of p q\<close>: \<open>q\<close> is the row \<open>p\<close> after the loop body has run on it.\<close>

definition processed_of :: "product \<Rightarrow> product \<Rightarrow> bool" where
  "processed_of p q \<longleftrightarrow> product.status q = ''processed'' \<and> output_image_urls q \<noteq> None
     \<and> product.pk q = product.pk p \<and> product.request_id q = product.request_id p"

text \<open>The invariant of the committed tables.\<close>

definition request_ok :: "processing_request \<Rightarrow> bool" where
  "request_ok r \<longleftrightarrow> (completed_at r \<noteq> None \<longleftrightarrow> processing_request.status r = ''completed'')"

definition product_ok :: "product \<Rightarrow> bool" where
  "product_ok p \<longleftrightarrow>
     (output_image_urls p = None \<longleftrightarrow> product.status p = ''pending'')
     \<and> (product.status p = ''pending'' \<or> product.status p = ''processed'')"

definition rows_visited :: "db \<Rightarrow> bool" where
  "rows_visited d \<longleftrightarrow>
     (\<forall>r\<in>set (requests d). processing_request.status r = ''completed'' \<longrightarrow>
        (\<forall>p\<in>set (products d). product.request_id p = processing_request.request_id r \<longrightarrow>
           product.status p = ''processed''))"

definition db_ok :: "db \<Rightarrow> bool" where
  "db_ok d \<longleftrightarrow> (\<forall>r\<in>set (requests d). request_ok r) \<and> (\<forall>p\<in>set (products d). product_ok p)
     \<and> rows_visited d"

subsection \<open>A concrete run\<close>

text \<open>
  A world in which one URL answers 200 with an image, one answers 201 with an image, one
  answers 404, every other request fails in transport, and nothing else raises; an upload
  of two rows in it, and the run of the background task on that upload.
\<close>

definition demo_world :: world where
  "demo_world =
     \<lparr>uuid4 = (\<lambda>t. ''id'' @ replicate t CHR ''1''),
      utcnow = (\<lambda>t. 1000 + t),
      http_get = (\<lambda>t url. if url = ''http://a/1.jpg'' then Response 200 ''JFIF''
                           else if url = ''http://a/2.png'' then Response 201 ''PNG''
                           else if url = ''http://a/3.jpg'' then Response 404 []
                           else TransportError),
      http_post = (\<lambda>t url. TransportError),
      image_open = (\<lambda>c. if c = [] then None else Some \<lparr>mode = ''P'', pixels = c\<rparr>),
      save_raises = (\<lambda>img. False),
      commit_raises = (\<lambda>t. False),
      read_raises = (\<lambda>k t. False)\<rparr>"

definition demo_csv :: "string list list" where
  "demo_csv =
     [[''S. No'', '' Product-Name '', ''InputImageURLs''],
      [''1'', ''Widget'', ''http://a/1.jpg, http://a/3.jpg''],
      [''2'', ''Gadget'', '' '']]"

definition demo_uploaded :: state where
  "demo_uploaded =
     snd (upload_csv demo_world ''text/csv'' demo_csv (Some ''http://hook'') init_state)"

definition demo_done :: state where
  "demo_done = process_images demo_world ''id'' demo_uploaded"


definition demo_dirty :: "product list" where
  "demo_dirty =
     [\<lparr>product.pk = 1, product.request_id = ''id'', serial_number = ''1'',
       product_name = ''Widget'', input_image_urls = Some ''http://a/1.jpg, http://a/3.jpg'',
       output_image_urls = Some ''/processed_images/id111.jpg'', product.status = ''processed''\<rparr>,
      \<lparr>product.pk = 2, product.request_id = ''id'', serial_number = ''2'',
       product_name = ''Gadget'', input_image_urls = Some [],
       output_image_urls = Some [], product.status = ''processed''\<rparr>]"

definition demo_after_loop :: state where
  "demo_after_loop =
     demo_uploaded\<lparr>files := [''processed_images/id111.jpg'' \<mapsto> Jpeg \<lparr>mode = ''RGB'', pixels = ''JFIF''\<rparr> 50],
        file_writes := [''processed_images/id111.jpg''],
        log := [DownloadFailed ''http://a/3.jpg'' 404],
        get_calls := [(''http://a/1.jpg'', 10), (''http://a/3.jpg'', 10)],
        tick := 5\<rparr>"

definition demo_request :: processing_request where
  "demo_request =
     \<lparr>processing_request.pk = 1, processing_request.request_id = ''id'',
      processing_request.status = ''pending'', created_at = 1001, completed_at = None,
      callback_url = Some ''http://hook''\<rparr>"

text \<open>
  The same world with a database that fails: at the commit, at the query of the request
  after the loop, and at the read of the request after the commit.
\<close>

definition demo_world_db_down :: world where
  "demo_world_db_down = demo_world\<lparr>commit_raises := (\<lambda>t. True)\<rparr>"

definition demo_world_select_down :: world where
  "demo_world_select_down = demo_world\<lparr>read_raises := (\<lambda>k t. k = SelectRequest)\<rparr>"

definition demo_world_refresh_down :: world where
  "demo_world_refresh_down = demo_world\<lparr>read_raises := (\<lambda>k t. k = RefreshRequest)\<rparr>"

definition demo_gadget :: product where
  "demo_gadget =
     \<lparr>product.pk = 2, product.request_id = ''id'', serial_number = ''2'',
      product_name = ''Gadget'', input_image_urls = Some [],
      output_image_urls = None, product.status = ''pending''\<rparr>"

definition demo_artifact :: stored_file where
  "demo_artifact =
     Csv [[''S. No'', ''Product Name'', ''Input Image Urls'', ''Output Image Urls''],
          [''1'', ''Widget'', ''http://a/1.jpg, http://a/3.jpg'', ''/processed_images/id111.jpg''],
          [''2'', ''Gadget'', [], []]]"

definition short_row_csv :: "string list list" where
  "short_row_csv =
     [[''S. No'', ''Product Name'', ''Input Image Urls''],
      [''1'', ''Widget'', ''http://a/1.jpg''],
      [''2'', ''Gadget'']]"

section \<open>Properties of the loops and of the session\<close>

lemma download_image_store: "store (snd (download_image w url acc st)) = store st"
  by (simp add: download_image_def Let_def split: http_result.splits option.splits)

lemma download_image_post: "post_calls (snd (download_image w url acc st)) = post_calls st"
  by (simp add: download_image_def Let_def split: http_result.splits option.splits)

lemma process_urls_store: "store (snd (process_urls w us acc st)) = store st"
proof (induction us arbitrary: acc st)
  case Nil
  then show ?case by simp
next
  case (Cons u us)
  show ?case
  proof (cases "strip u = []")
    case True
    then show ?thesis using Cons by simp
  next
    case False
    obtain a s where d: "download_image w (strip u) acc st = (a, s)" by force
    have "store s = store st" using download_image_store [of w "strip u" acc st] d by simp
    then show ?thesis using False d Cons [of a s] by simp
  qed
qed

lemma process_urls_post: "post_calls (snd (process_urls w us acc st)) = post_calls st"
proof (induction us arbitrary: acc st)
  case Nil
  then show ?case by simp
next
  case (Cons u us)
  show ?case
  proof (cases "strip u = []")
    case True
    then show ?thesis using Cons by simp
  next
    case False
    obtain a s where d: "download_image w (strip u) acc st = (a, s)" by force
    have "post_calls s = post_calls st" using download_image_post [of w "strip u" acc st] d by simp
    then show ?thesis using False d Cons [of a s] by simp
  qed
qed

lemma process_product_Inr:
  "process_product w p st = Inr (p', st') \<Longrightarrow>
     store st' = store st \<and> post_calls st' = post_calls st
     \<and> product.status p' = ''processed'' \<and> output_image_urls p' \<noteq> None
     \<and> product.pk p' = product.pk p \<and> product.request_id p' = product.request_id p"
proof -
  assume a: "process_product w p st = Inr (p', st')"
  then obtain s new_urls where s: "input_image_urls p = Some s"
    and u: "process_urls w (split CHR '','' s) [] st = (new_urls, st')"
    and p': "p' = p\<lparr>output_image_urls := Some (join '','' new_urls), product.status := ''processed''\<rparr>"
    by (auto simp: process_product_def split: option.splits prod.splits)
  have "store st' = store st"
    using process_urls_store [of w "split CHR '','' s" "[]" st] u by simp
  moreover have "post_calls st' = post_calls st"
    using process_urls_post [of w "split CHR '','' s" "[]" st] u by simp
  ultimately show ?thesis using p' by simp
qed

lemma process_product_Inl:
  "process_product w p st = Inl st' \<Longrightarrow> st' = st"
  by (auto simp: process_product_def split: option.splits prod.splits)

lemma process_products_Inr:
  "process_products w ps dirty st = Inr (dirty', st') \<Longrightarrow>
     store st' = store st \<and> post_calls st' = post_calls st
     \<and> (\<exists>qs. dirty' = dirty @ qs \<and> list_all2 processed_of ps qs)"
proof (induction ps arbitrary: dirty st)
  case Nil
  then show ?case by simp
next
  case (Cons p ps)
  from Cons.prems obtain p' s where pp: "process_product w p st = Inr (p', s)"
    and rest: "process_products w ps (dirty @ [p']) s = Inr (dirty', st')"
    by (auto split: sum.splits)
  note a = process_product_Inr [OF pp]
  from Cons.IH [OF rest] obtain qs where
    b: "store st' = store s" "post_calls st' = post_calls s" "dirty' = (dirty @ [p']) @ qs" "list_all2 processed_of ps qs"
    by blast
  have "list_all2 processed_of (p # ps) (p' # qs)"
    using a b(4) by (simp add: processed_of_def)
  then show ?case using a b by auto
qed

lemma process_products_Inl:
  "process_products w ps dirty st = Inl st' \<Longrightarrow>
     store st' = store st \<and> post_calls st' = post_calls st"
proof (induction ps arbitrary: dirty st)
  case Nil
  then show ?case by simp
next
  case (Cons p ps)
  show ?case
  proof (cases "process_product w p st")
    case (Inl s)
    then show ?thesis using Cons.prems process_product_Inl [OF Inl] by simp
  next
    case (Inr r)
    obtain p' s where r: "r = (p', s)" by force
    have "process_products w ps (dirty @ [p']) s = Inl st'" using Cons.prems Inr r by simp
    from Cons.IH [OF this] process_product_Inr [of w p st p' s] Inr r show ?thesis by simp
  qed
qed

lemma list_all2_right: "list_all2 R ps qs \<Longrightarrow> q \<in> set qs \<Longrightarrow> \<exists>p\<in>set ps. R p q"
  by (induction rule: list_all2_induct) auto

lemma list_all2_left: "list_all2 R ps qs \<Longrightarrow> p \<in> set ps \<Longrightarrow> \<exists>q\<in>set qs. R p q"
  by (induction rule: list_all2_induct) auto

lemma flush_products_cases:
  "x \<in> set (flush_products dirty tbl) \<Longrightarrow>
     x \<in> set dirty \<or> (x \<in> set tbl \<and> (\<forall>q\<in>set dirty. product.pk q \<noteq> product.pk x))"
  by (auto simp: flush_products_def find_None_iff find_Some_iff split: option.splits)

lemma flush_request_cases:
  "x \<in> set (flush_request dr tbl) \<Longrightarrow> x \<in> set tbl \<or> dr = Some x"
  by (auto simp: flush_request_def split: option.splits if_splits)

lemma query_request_Some:
  "query_request rid d = Some r \<Longrightarrow> r \<in> set (requests d) \<and> processing_request.request_id r = rid"
  by (auto simp: query_request_def find_Some_iff)

lemma commit_updates_ok:
  assumes ok: "db_ok d"
    and qs: "list_all2 processed_of (query_products rid d) qs"
    and dr: "dr = map_option (\<lambda>r. r\<lparr>processing_request.status := ''completed'', completed_at := Some t\<rparr>) (query_request rid d)"
  shows "db_ok (commit_updates qs dr d)"
proof -
  let ?d = "commit_updates qs dr d"
  have reqs: "requests ?d = flush_request dr (requests d)"
    and prods: "products ?d = flush_products qs (products d)"
    by (simp_all add: commit_updates_def)
  have dirty: "product.status q = ''processed'' \<and> product_ok q" if "q \<in> set qs" for q
    using list_all2_right [OF qs that] by (auto simp: processed_of_def product_ok_def)
  have dr_props: "processing_request.status x = ''completed'' \<and> request_ok x
      \<and> processing_request.request_id x = rid" if "dr = Some x" for x
    using that dr query_request_Some [of rid d] by (auto simp: request_ok_def)
  have p_ok: "product_ok x" if "x \<in> set (products ?d)" for x
    using flush_products_cases [of x qs "products d"] that prods dirty ok
    by (auto simp: db_ok_def)
  have r_ok: "request_ok x" if "x \<in> set (requests ?d)" for x
    using flush_request_cases [of x dr "requests d"] that reqs dr_props ok
    by (auto simp: db_ok_def)
  have vis: "product.status p = ''processed''"
    if x: "x \<in> set (requests ?d)" and c: "processing_request.status x = ''completed''"
      and p: "p \<in> set (products ?d)" and e: "product.request_id p = processing_request.request_id x"
    for x p
  proof -
    from flush_products_cases [of p qs "products d"] p prods
    consider "p \<in> set qs" | "p \<in> set (products d)" "\<forall>q\<in>set qs. product.pk q \<noteq> product.pk p"
      by auto
    then show ?thesis
    proof cases
      case 1
      then show ?thesis using dirty by simp
    next
      case 2
      have not_rid: "product.request_id p \<noteq> rid"
      proof
        assume "product.request_id p = rid"
        then have "p \<in> set (query_products rid d)" using 2(1) by (simp add: query_products_def)
        from list_all2_left [OF qs this] 2(2) show False by (auto simp: processed_of_def)
      qed
      from flush_request_cases [of x dr "requests d"] x reqs
      consider "x \<in> set (requests d)" | "dr = Some x" by auto
      then show ?thesis
      proof cases
        case 1
        then show ?thesis using ok c e 2(1) by (auto simp: db_ok_def rows_visited_def)
      next
        case 2
        then show ?thesis using dr_props e not_rid by auto
      qed
    qed
  qed
  show ?thesis
    unfolding db_ok_def rows_visited_def using p_ok r_ok vis by blast
qed

lemma complete_request_eq:
  "complete_request w rid st = (dr, st2) \<Longrightarrow>
     store st2 = store st \<and> post_calls st2 = post_calls st \<and> log st2 = log st
     \<and> dr = map_option (\<lambda>r. r\<lparr>processing_request.status := ''completed'',
                                 completed_at := Some (utcnow w (tick st))\<rparr>)
                        (query_request rid (store st))"
  by (auto simp: complete_request_def split: option.splits)

lemma call_webhook_store: "store (call_webhook w rid url st) = store st"
  by (simp add: call_webhook_def Let_def split: http_result.splits)

lemma process_images_cases:
  "store (process_images w rid st) = store st
   \<or> (\<exists>qs t. list_all2 processed_of (query_products rid (store st)) qs
        \<and> store (process_images w rid st) =
            commit_updates qs
              (map_option (\<lambda>r. r\<lparr>processing_request.status := ''completed'',
                                    completed_at := Some (utcnow w t)\<rparr>)
                          (query_request rid (store st)))
              (store st))"
proof (cases "read_raises w SelectProducts (tick st)")
  case True
  then show ?thesis by (simp add: process_images_def)
next
  case r1: False
  show ?thesis
  proof (cases "process_products w (query_products rid (store st)) [] st")
    case (Inl st1)
    then show ?thesis using r1 process_products_Inl [OF Inl] by (simp add: process_images_def)
  next
    case (Inr r)
    obtain dirty st1 where r: "r = (dirty, st1)" by force
    from process_products_Inr [of w _ "[]" st dirty st1] Inr r
    have s1: "store st1 = store st"
      and qs: "list_all2 processed_of (query_products rid (store st)) dirty"
      by auto
    obtain dr st2 where c: "complete_request w rid st1 = (dr, st2)" by force
    note ce = complete_request_eq [OF c]
    show ?thesis
    proof (cases "read_raises w SelectRequest (tick st1) \<or> commit_raises w (tick st2)")
      case True
      then show ?thesis using r1 Inr r c ce s1 by (auto simp: process_images_def)
    next
      case False
      have "store (process_images w rid st) = commit_updates dirty dr (store st)"
        using r1 Inr r c ce s1 False
        by (simp add: process_images_def Let_def call_webhook_store split: option.splits)
      then show ?thesis using qs ce s1 by auto
    qed
  qed
qed

lemma process_images_ok: "db_ok (store st) \<Longrightarrow> db_ok (store (process_images w rid st))"
  using process_images_cases [of w rid st] commit_updates_ok [of "store st" rid]
  by auto

lemma get_status_store: "store (snd (get_status rid st)) = store st"
  by (simp add: get_status_def generate_output_csv_def Let_def split: option.splits)

lemma add_products_Inr:
  "add_products rid rows pending = Inr ps \<Longrightarrow>
     \<exists>new. ps = pending @ new \<and> length new = length rows
       \<and> (\<forall>p\<in>set new. product.request_id p = rid \<and> product.status p = ''pending''
             \<and> output_image_urls p = None)"
proof (induction rows arbitrary: pending)
  case Nil
  then show ?case by simp
next
  case (Cons row rows)
  let ?p = "\<lparr>product.pk = 0, product.request_id = rid,
                serial_number = strip (row ! 0), product_name = strip (row ! 1),
                input_image_urls = Some (strip (row ! 2)), output_image_urls = None,
                product.status = ''pending''\<rparr>"
  from Cons.prems have "add_products rid rows (pending @ [?p]) = Inr ps"
    by (simp split: if_splits)
  from Cons.IH [OF this] obtain new where
    n: "ps = (pending @ [?p]) @ new" "length new = length rows"
       "\<forall>p\<in>set new. product.request_id p = rid \<and> product.status p = ''pending'' \<and> output_image_urls p = None"
    by blast
  show ?case
    by (rule exI [of _ "?p # new"]) (use n in simp)
qed

lemma assign_pks_props:
  "length (assign_pks n ps) = length ps"
  "q \<in> set (assign_pks n ps) \<Longrightarrow>
     \<exists>p\<in>set ps. product.request_id q = product.request_id p \<and> product.status q = product.status p
        \<and> output_image_urls q = output_image_urls p"
  by (induction ps arbitrary: n) auto

lemma commit_inserts_ok:
  assumes ok: "db_ok d"
    and new: "\<forall>p\<in>set ps. product.request_id p = rid \<and> product.status p = ''pending'' \<and> output_image_urls p = None"
    and r: "processing_request.status r = ''pending''" "completed_at r = None"
    and fresh: "rid \<notin> set (map processing_request.request_id (requests d))"
  shows "db_ok (commit_inserts r ps d)"
proof -
  have q: "product.request_id q = rid \<and> product.status q = ''pending'' \<and> output_image_urls q = None"
    if "q \<in> set (assign_pks (product_seq d) ps)" for q
    using assign_pks_props(2) [OF that] new by auto
  show ?thesis
    using ok r fresh q
    unfolding db_ok_def rows_visited_def commit_inserts_def
    by (auto simp: request_ok_def product_ok_def)
qed

lemma upload_csv_cases:
  "store (snd (upload_csv w ct rows hook st)) = store st
   \<or> (\<exists>r ps rid. store (snd (upload_csv w ct rows hook st)) = commit_inserts r ps (store st)
        \<and> (\<forall>p\<in>set ps. product.request_id p = rid \<and> product.status p = ''pending'' \<and> output_image_urls p = None)
        \<and> processing_request.status r = ''pending'' \<and> completed_at r = None
        \<and> rid \<notin> set (map processing_request.request_id (requests (store st))))"
proof (cases "ct = ''text/csv''")
  case False
  then show ?thesis by (simp add: upload_csv_def)
next
  case True
  show ?thesis
  proof (cases rows)
    case Nil
    then show ?thesis using True by (simp add: upload_csv_def)
  next
    case (Cons header data)
    show ?thesis
    proof (cases "add_products (uuid4 w (tick st)) data []")
      case (Inl e)
      then show ?thesis using True Cons by (simp add: upload_csv_def Let_def)
    next
      case (Inr ps)
      from add_products_Inr [OF Inr]
      have new: "\<forall>p\<in>set ps. product.request_id p = uuid4 w (tick st) \<and> product.status p = ''pending'' \<and> output_image_urls p = None"
        by auto
      show ?thesis
      proof (cases "map normalize header \<noteq> expected_header \<or> commit_raises w (Suc (tick st))
          \<or> uuid4 w (tick st) \<in> set (map processing_request.request_id (requests (store st)))")
        case True
        then show ?thesis using \<open>ct = ''text/csv''\<close> Cons Inr
          by (auto simp: upload_csv_def Let_def)
      next
        case False
        show ?thesis
          apply (rule disjI2)
          using False \<open>ct = ''text/csv''\<close> Cons Inr new
          apply (simp add: upload_csv_def Let_def)
          apply (rule exI, rule exI [of _ ps], rule conjI, rule refl)
          apply auto
          done
      qed
    qed
  qed
qed

lemma upload_csv_ok: "db_ok (store st) \<Longrightarrow> db_ok (store (snd (upload_csv w ct rows hook st)))"
  using upload_csv_cases [of w ct rows hook st] commit_inserts_ok [of "store st"]
  by metis

lemma reachable_ok: "reachable w st \<Longrightarrow> db_ok (store st)"
proof (induction rule: reachable.induct)
  case init
  show ?case by (simp add: init_state_def empty_db_def db_ok_def rows_visited_def)
next
  case (upload st content_type csv_reader webhook_url)
  then show ?case by (simp add: upload_csv_ok)
next
  case (process st rid)
  then show ?case by (simp add: process_images_ok)
next
  case (status st rid)
  then show ?case by (simp add: get_status_store)
qed

lemma download_image_effects:
  "download_image w url acc st = (new_urls, st') \<Longrightarrow>
     get_calls st' = get_calls st @ [(url, 10)]
     \<and> (\<exists>added. file_writes st' = file_writes st @ added
            \<and> new_urls = acc @ map ((@) ''/'') added \<and> length added \<le> 1)"
  by (auto simp: download_image_def Let_def path_join_def PROCESSED_DIR_def
           split: http_result.splits option.splits if_splits)

lemma process_urls_effects:
  "process_urls w us acc st = (new_urls, st') \<Longrightarrow>
     get_calls st' = get_calls st @ map (\<lambda>u. (u, 10)) (filter (\<lambda>u. u \<noteq> []) (map strip us))
     \<and> (\<exists>added. file_writes st' = file_writes st @ added
            \<and> new_urls = acc @ map ((@) ''/'') added
            \<and> length added \<le> length (filter (\<lambda>u. u \<noteq> []) (map strip us)))"
proof (induction us arbitrary: acc st)
  case Nil
  then show ?case by simp
next
  case (Cons u us)
  show ?case
  proof (cases "strip u = []")
    case True
    then have "process_urls w us acc st = (new_urls, st')" using Cons.prems by simp
    from Cons.IH [OF this] show ?thesis using True by simp
  next
    case False
    obtain a s where d: "download_image w (strip u) acc st = (a, s)" by force
    from download_image_effects [OF d] obtain added1 where
      d1: "get_calls s = get_calls st @ [(strip u, 10)]"
          "file_writes s = file_writes st @ added1"
          "a = acc @ map ((@) ''/'') added1" "length added1 \<le> 1"
      by blast
    have "process_urls w us a s = (new_urls, st')" using Cons.prems False d by simp
    from Cons.IH [OF this] obtain added2 where
      d2: "get_calls st' = get_calls s @ map (\<lambda>u. (u, 10)) (filter (\<lambda>u. u \<noteq> []) (map strip us))"
          "file_writes st' = file_writes s @ added2"
          "new_urls = a @ map ((@) ''/'') added2"
          "length added2 \<le> length (filter (\<lambda>u. u \<noteq> []) (map strip us))"
      by blast
    have "file_writes st' = file_writes st @ (added1 @ added2)
        \<and> new_urls = acc @ map ((@) ''/'') (added1 @ added2)
        \<and> length (added1 @ added2) \<le> length (filter (\<lambda>u. u \<noteq> []) (map strip (u # us)))"
      using d1 d2 False by simp
    then show ?thesis using d1(1) d2(1) False by (intro conjI exI [of _ "added1 @ added2"]) simp_all
  qed
qed


section \<open>The concrete run, evaluated\<close>

lemma normalize_samples:
  "normalize ''S. No'' = ''sno''"
  "normalize '' Product-Name '' = ''productname''"
  "normalize ''InputImageURLs'' = ''inputimageurls''"
  "normalize ''S_No'' = ''s_no''"
  by code_simp+

lemma replicate_3: "replicate 3 c = [c, c, c]"
  by (simp add: numeral_3_eq_3)

lemmas string_defs = replicate_3 is_space_def strip_def normalize_samples
  path_join_def OUTPUT_DIR_def PROCESSED_DIR_def expected_header_def

lemma demo_uploaded_eq:
  "demo_uploaded =
     \<lparr>store = \<lparr>requests = [\<lparr>processing_request.pk = 1, processing_request.request_id = ''id'',
                   processing_request.status = ''pending'', created_at = 1001, completed_at = None,
                   callback_url = Some ''http://hook''\<rparr>],
               products = [\<lparr>product.pk = 1, product.request_id = ''id'', serial_number = ''1'',
                    product_name = ''Widget'', input_image_urls = Some ''http://a/1.jpg, http://a/3.jpg'',
                    output_image_urls = None, product.status = ''pending''\<rparr>,
                   \<lparr>product.pk = 2, product.request_id = ''id'', serial_number = ''2'',
                    product_name = ''Gadget'', input_image_urls = Some [],
                    output_image_urls = None, product.status = ''pending''\<rparr>],
               request_seq = 2, product_seq = 3\<rparr>,
      files = Map.empty, file_writes = [], log = [], get_calls = [], post_calls = [], tick = 2\<rparr>"
  by (simp add: demo_uploaded_def upload_csv_def demo_csv_def demo_world_def init_state_def
        empty_db_def commit_inserts_def string_defs Let_def)


lemma demo_done_store:
  "store demo_done =
     \<lparr>requests = [\<lparr>processing_request.pk = 1, processing_request.request_id = ''id'',
                   processing_request.status = ''completed'', created_at = 1001, completed_at = Some 1005,
                   callback_url = Some ''http://hook''\<rparr>],
               products = [\<lparr>product.pk = 1, product.request_id = ''id'', serial_number = ''1'',
                    product_name = ''Widget'', input_image_urls = Some ''http://a/1.jpg, http://a/3.jpg'',
                    output_image_urls = Some ''/processed_images/id111.jpg'', product.status = ''processed''\<rparr>,
                   \<lparr>product.pk = 2, product.request_id = ''id'', serial_number = ''2'',
                    product_name = ''Gadget'', input_image_urls = Some [],
                    output_image_urls = Some [], product.status = ''processed''\<rparr>],
               request_seq = 2, product_seq = 3\<rparr>"
  by (simp add: demo_done_def demo_uploaded_eq process_images_def query_products_def
        process_product_def download_image_def complete_request_def query_request_def
        commit_updates_def flush_products_def flush_request_def call_webhook_def convert_rgb_def
        demo_world_def string_defs Let_def)

section \<open>The claims\<close>

subsection \<open>C2: the row processor\<close>




subsection \<open>C3: fetching and transcoding one image\<close>

text \<open>
  C3, as amended. The body of the inner \<open>try\<close> for one URL: when the response has status
  code 200 exactly, its content opens as an image and converting and saving do not raise,
  the image is converted to mode RGB and stored as a JPEG of quality 50 under
  \<open>processed_images/<uuid>.jpg\<close> for a newly drawn UUID, and \<open>/processed_images/<uuid>.jpg\<close>
  is appended to the references. In every other case (any other status code, 2xx or not,
  a transport error, an image that does not open, a save that raises) the references and
  the files stay as they were and one line is printed. The function returns in every
  case.
\<close>

theorem fetch_and_transcode:
  "(case http_get w (tick st) url of
      Response code content \<Rightarrow>
        (case image_open w content of
           Some img \<Rightarrow>
             if code = 200 \<and> \<not> save_raises w (convert_rgb img)
             then download_image w url new_urls st =
                    (new_urls @ [''/processed_images/'' @ uuid4 w (Suc (tick st)) @ ''.jpg''],
                     st\<lparr>get_calls := get_calls st @ [(url, 10)], tick := Suc (Suc (tick st)),
                        files := (files st)(''processed_images/'' @ uuid4 w (Suc (tick st)) @ ''.jpg''
                                   \<mapsto> Jpeg (img\<lparr>mode := ''RGB''\<rparr>) 50),
                        file_writes := file_writes st @ [''processed_images/'' @ uuid4 w (Suc (tick st)) @ ''.jpg'']\<rparr>)
             else fst (download_image w url new_urls st) = new_urls
                  \<and> files (snd (download_image w url new_urls st)) = files st
                  \<and> log (snd (download_image w url new_urls st)) =
                      log st @ [if code = 200 then ImageError url else DownloadFailed url code]
         | None \<Rightarrow>
             fst (download_image w url new_urls st) = new_urls
             \<and> files (snd (download_image w url new_urls st)) = files st
             \<and> log (snd (download_image w url new_urls st)) =
                 log st @ [if code = 200 then ImageError url else DownloadFailed url code])
    | TransportError \<Rightarrow>
        fst (download_image w url new_urls st) = new_urls
        \<and> files (snd (download_image w url new_urls st)) = files st
        \<and> log (snd (download_image w url new_urls st)) = log st @ [ImageError url])"
  by (simp add: download_image_def Let_def path_join_def PROCESSED_DIR_def convert_rgb_def
           split: http_result.splits option.splits)

theorem fetch_and_transcode_witness:
  "download_image demo_world ''http://a/1.jpg'' [] init_state =
     ([''/processed_images/id1.jpg''],
      init_state\<lparr>get_calls := [(''http://a/1.jpg'', 10)], tick := 2,
         files := [''processed_images/id1.jpg'' \<mapsto> Jpeg \<lparr>mode = ''RGB'', pixels = ''JFIF''\<rparr> 50],
         file_writes := [''processed_images/id1.jpg'']\<rparr>)
   \<and> fst (download_image demo_world ''http://a/3.jpg'' [] init_state) = []
   \<and> log (snd (download_image demo_world ''http://a/3.jpg'' [] init_state)) =
         [DownloadFailed ''http://a/3.jpg'' 404]
   \<and> fst (download_image demo_world ''http://nowhere'' [] init_state) = []
   \<and> log (snd (download_image demo_world ''http://nowhere'' [] init_state)) =
         [ImageError ''http://nowhere'']"
  using fetch_and_transcode [where w = demo_world and st = init_state and url = "''http://a/1.jpg''" and new_urls = "[]"]
    fetch_and_transcode [where w = demo_world and st = init_state and url = "''http://a/3.jpg''" and new_urls = "[]"]
    fetch_and_transcode [where w = demo_world and st = init_state and url = "''http://nowhere''" and new_urls = "[]"]
  by (simp add: demo_world_def init_state_def convert_rgb_def)

text \<open>
  The claim as stated fails for the other success codes: a response 201 whose content
  opens as an image gives no reference, and the print of a failed download.
\<close>

theorem status_201_not_decoded:
  "http_get demo_world 0 ''http://a/2.png'' = Response 201 ''PNG''
   \<and> image_open demo_world ''PNG'' = Some \<lparr>mode = ''P'', pixels = ''PNG''\<rparr>
   \<and> download_image demo_world ''http://a/2.png'' [] init_state =
       ([], init_state\<lparr>get_calls := [(''http://a/2.png'', 10)], tick := 1,
                      log := [DownloadFailed ''http://a/2.png'' 201]\<rparr>)"
  by (simp add: download_image_def demo_world_def init_state_def)

subsection \<open>C1: completion of a job\<close>

text \<open>Facts about a run that reaches its commit, shared by several claims.\<close>

lemma find_replace:
  "find P xs = Some r \<Longrightarrow> P r' \<Longrightarrow> f r = f r' \<Longrightarrow>
     find P (map (\<lambda>x. if f x = f r' then r' else x) xs) = Some r'"
  by (induction xs) (auto split: if_splits)

lemma query_request_commit:
  assumes "query_request rid d = Some r"
    and "processing_request.request_id r' = rid" "processing_request.pk r' = processing_request.pk r"
  shows "query_request rid (commit_updates qs (Some r') d) = Some r'"
  using find_replace [of "\<lambda>r. processing_request.request_id r = rid" "requests d" r r' processing_request.pk]
    assms
  by (simp add: query_request_def commit_updates_def flush_request_def)

lemma flush_all_processed:
  assumes qs: "list_all2 processed_of (query_products rid d) qs"
    and p: "p \<in> set (query_products rid (commit_updates qs dr d))"
  shows "product.status p = ''processed'' \<and> output_image_urls p \<noteq> None"
proof -
  from p have p1: "p \<in> set (flush_products qs (products d))" and e: "product.request_id p = rid"
    by (simp_all add: query_products_def commit_updates_def)
  from flush_products_cases [OF p1]
  consider "p \<in> set qs" | "p \<in> set (products d)" "\<forall>q\<in>set qs. product.pk q \<noteq> product.pk p"
    by auto
  then show ?thesis
  proof cases
    case 1
    from list_all2_right [OF qs 1] show ?thesis by (auto simp: processed_of_def)
  next
    case 2
    then have "p \<in> set (query_products rid d)" using e by (simp add: query_products_def)
    from list_all2_left [OF qs this] 2(2) show ?thesis by (auto simp: processed_of_def)
  qed
qed

lemma process_images_commit:
  assumes r1: "\<not> read_raises w SelectProducts (tick st)"
    and l: "process_products w (query_products rid (store st)) [] st = Inr (dirty, st1)"
    and r2: "\<not> read_raises w SelectRequest (tick st1)"
    and c: "\<not> commit_raises w (tick (snd (complete_request w rid st1)))"
  shows "store (process_images w rid st) =
           commit_updates dirty (fst (complete_request w rid st1)) (store st)"
proof -
  obtain dr st2 where cr: "complete_request w rid st1 = (dr, st2)" by force
  from process_products_Inr [OF l] have s1: "store st1 = store st" by simp
  from complete_request_eq [OF cr] have s2: "store st2 = store st1" by simp
  show ?thesis using r1 l r2 c cr s1 s2
    by (simp add: process_images_def Let_def call_webhook_store split: option.splits)
qed

lemma process_images_abort:
  "process_products w (query_products rid (store st)) [] st = Inl st1 \<Longrightarrow>
     store (process_images w rid st) = store st"
  using process_products_Inl [of w "query_products rid (store st)" "[]" st st1]
  by (simp add: process_images_def)

lemma complete_request_Some:
  "query_request rid (store st) = Some r \<Longrightarrow>
     complete_request w rid st =
       (Some (r\<lparr>processing_request.status := ''completed'', completed_at := Some (utcnow w (tick st))\<rparr>),
        st\<lparr>tick := Suc (tick st)\<rparr>)"
  by (simp add: complete_request_def)

lemma process_images_changed:
  assumes n: "store (process_images w rid st) \<noteq> store st"
  shows "\<exists>dirty st1. process_products w (query_products rid (store st)) [] st = Inr (dirty, st1)
     \<and> store (process_images w rid st) =
         commit_updates dirty (fst (complete_request w rid st1)) (store st)"
proof -
  have r1: "\<not> read_raises w SelectProducts (tick st)"
    using n by (auto simp: process_images_def)
  show ?thesis
  proof (cases "process_products w (query_products rid (store st)) [] st")
    case (Inl s)
    from process_images_abort [OF Inl] n show ?thesis by simp
  next
    case (Inr x)
    obtain dirty st1 where x: "x = (dirty, st1)" by force
    have l: "process_products w (query_products rid (store st)) [] st = Inr (dirty, st1)"
      using Inr x by simp
    from process_products_Inr [OF l] have s1: "store st1 = store st" by simp
    have r2: "\<not> read_raises w SelectRequest (tick st1)"
      using n r1 l s1 by (auto simp: process_images_def)
    obtain dr st2 where cr: "complete_request w rid st1 = (dr, st2)" by force
    from complete_request_eq [OF cr] have s2: "store st2 = store st1" by simp
    have c: "\<not> commit_raises w (tick (snd (complete_request w rid st1)))"
    proof
      assume "commit_raises w (tick (snd (complete_request w rid st1)))"
      then have "store (process_images w rid st) = store st"
        using r1 l r2 cr s1 s2 by (simp add: process_images_def)
      then show False using n by simp
    qed
    from process_images_commit [OF r1 l r2 c] l show ?thesis by blast
  qed
qed

lemma query_request_after_commit:
  assumes s1: "store st1 = store st"
  shows "query_request rid (commit_updates dirty (fst (complete_request w rid st1)) (store st)) =
     map_option (\<lambda>r. r\<lparr>processing_request.status := ''completed'',
                          completed_at := Some (utcnow w (tick st1))\<rparr>)
                (query_request rid (store st))"
proof (cases "query_request rid (store st)")
  case None
  then have "fst (complete_request w rid st1) = None"
    using s1 by (simp add: complete_request_def)
  then show ?thesis using None
    by (simp add: query_request_def commit_updates_def flush_request_def)
next
  case (Some r)
  let ?r' = "r\<lparr>processing_request.status := ''completed'', completed_at := Some (utcnow w (tick st1))\<rparr>"
  have "fst (complete_request w rid st1) = Some ?r'"
    using Some s1 by (simp add: complete_request_Some)
  moreover have "processing_request.request_id ?r' = rid"
    using query_request_Some [OF Some] by simp
  ultimately show ?thesis using Some by (simp add: query_request_commit)
qed

text \<open>
  C1. In every reachable state, a request has \<open>completed_at\<close> set exactly when its status
  is \<open>completed\<close>, and every row of a completed request is \<open>processed\<close>. In a run, when
  the reads do not raise, the loop has gone through all the rows of the request and the
  commit does not raise, the request gets the status \<open>completed\<close> and, in the same
  update, \<open>completed_at\<close> the time of the clock right after the loop, and all its rows
  are \<open>processed\<close>. A run changes the committed tables only when its loop has gone
  through every row, and then in that way: status and \<open>completed_at\<close> together, at the
  time right after the loop, with every row \<open>processed\<close>.
\<close>

theorem job_completion:
  "(reachable w st \<longrightarrow>
      (\<forall>r\<in>set (requests (store st)).
         (completed_at r \<noteq> None \<longleftrightarrow> processing_request.status r = ''completed'')
         \<and> (processing_request.status r = ''completed'' \<longrightarrow>
              (\<forall>p\<in>set (query_products (processing_request.request_id r) (store st)).
                 product.status p = ''processed''))))
   \<and> (\<not> read_raises w SelectProducts (tick st)
        \<and> process_products w (query_products rid (store st)) [] st = Inr (dirty, st1)
        \<and> \<not> read_raises w SelectRequest (tick st1)
        \<and> query_request rid (store st) = Some r \<and> \<not> commit_raises w (Suc (tick st1)) \<longrightarrow>
        query_request rid (store (process_images w rid st)) =
          Some (r\<lparr>processing_request.status := ''completed'',
                   completed_at := Some (utcnow w (tick st1))\<rparr>)
        \<and> (\<forall>p\<in>set (query_products rid (store (process_images w rid st))).
              product.status p = ''processed''))
   \<and> (store (process_images w rid st) \<noteq> store st \<longrightarrow>
        (\<exists>dirty st1. process_products w (query_products rid (store st)) [] st = Inr (dirty, st1)
           \<and> length dirty = length (query_products rid (store st))
           \<and> query_request rid (store (process_images w rid st)) =
               map_option (\<lambda>r. r\<lparr>processing_request.status := ''completed'',
                                    completed_at := Some (utcnow w (tick st1))\<rparr>)
                          (query_request rid (store st))
           \<and> (\<forall>p\<in>set (query_products rid (store (process_images w rid st))).
                 product.status p = ''processed'')))"
proof (intro conjI impI)
  assume "reachable w st"
  from reachable_ok [OF this] show "\<forall>r\<in>set (requests (store st)).
         (completed_at r \<noteq> None \<longleftrightarrow> processing_request.status r = ''completed'')
         \<and> (processing_request.status r = ''completed'' \<longrightarrow>
              (\<forall>p\<in>set (query_products (processing_request.request_id r) (store st)).
                 product.status p = ''processed''))"
    by (auto simp: db_ok_def request_ok_def rows_visited_def query_products_def)
next
  assume a: "\<not> read_raises w SelectProducts (tick st)
        \<and> process_products w (query_products rid (store st)) [] st = Inr (dirty, st1)
        \<and> \<not> read_raises w SelectRequest (tick st1)
        \<and> query_request rid (store st) = Some r \<and> \<not> commit_raises w (Suc (tick st1))"
  let ?r' = "r\<lparr>processing_request.status := ''completed'', completed_at := Some (utcnow w (tick st1))\<rparr>"
  from a process_products_Inr [of w "query_products rid (store st)" "[]" st dirty st1]
  have s1: "store st1 = store st"
    and qs: "list_all2 processed_of (query_products rid (store st)) dirty"
    by auto
  have cr: "complete_request w rid st1 = (Some ?r', st1\<lparr>tick := Suc (tick st1)\<rparr>)"
    using a s1 by (simp add: complete_request_Some)
  have st: "store (process_images w rid st) =
      commit_updates dirty (fst (complete_request w rid st1)) (store st)"
    using process_images_commit [of w st rid dirty st1] a cr by simp
  show "query_request rid (store (process_images w rid st)) = Some ?r'"
    unfolding st query_request_after_commit [OF s1] using a by simp
  show "\<forall>p\<in>set (query_products rid (store (process_images w rid st))). product.status p = ''processed''"
    unfolding st using flush_all_processed [OF qs] by blast
next
  assume a: "store (process_images w rid st) \<noteq> store st"
  from process_images_changed [OF a] obtain dirty st1 where
    l: "process_products w (query_products rid (store st)) [] st = Inr (dirty, st1)"
    and st: "store (process_images w rid st) =
         commit_updates dirty (fst (complete_request w rid st1)) (store st)"
    by blast
  from process_products_Inr [OF l]
  have s1: "store st1 = store st"
    and qs: "list_all2 processed_of (query_products rid (store st)) dirty"
    by auto
  have len: "length dirty = length (query_products rid (store st))"
    using qs by (simp add: list_all2_lengthD)
  have q: "query_request rid (store (process_images w rid st)) =
               map_option (\<lambda>r. r\<lparr>processing_request.status := ''completed'',
                                    completed_at := Some (utcnow w (tick st1))\<rparr>)
                          (query_request rid (store st))"
    unfolding st by (rule query_request_after_commit [OF s1])
  have p: "\<forall>p\<in>set (query_products rid (store (process_images w rid st))). product.status p = ''processed''"
    unfolding st using flush_all_processed [OF qs] by blast
  show "\<exists>dirty st1. process_products w (query_products rid (store st)) [] st = Inr (dirty, st1)
           \<and> length dirty = length (query_products rid (store st))
           \<and> query_request rid (store (process_images w rid st)) =
               map_option (\<lambda>r. r\<lparr>processing_request.status := ''completed'',
                                    completed_at := Some (utcnow w (tick st1))\<rparr>)
                          (query_request rid (store st))
           \<and> (\<forall>p\<in>set (query_products rid (store (process_images w rid st))).
                 product.status p = ''processed'')"
    using l len q p by blast
qed

lemma demo_world_reads: "read_raises demo_world k t = False" "commit_raises demo_world t = False"
  by (simp_all add: demo_world_def)

lemma demo_loop:
  "process_products demo_world (query_products ''id'' (store demo_uploaded)) [] demo_uploaded =
     Inr (demo_dirty, demo_after_loop)"
  by (simp add: demo_uploaded_eq demo_dirty_def demo_after_loop_def query_products_def
        process_product_def download_image_def convert_rgb_def demo_world_def string_defs Let_def)

lemma demo_reachable: "reachable demo_world demo_uploaded" "reachable demo_world demo_done"
  unfolding demo_done_def demo_uploaded_def
  by (intro reachable.intros)+

theorem job_completion_witness:
  "reachable demo_world demo_done
   \<and> map (\<lambda>r. (processing_request.status r, completed_at r)) (requests (store demo_done)) =
       [(''completed'', Some 1005)]
   \<and> map product.status (query_products ''id'' (store demo_done)) = [''processed'', ''processed'']
   \<and> \<not> read_raises demo_world SelectProducts (tick demo_uploaded)
   \<and> process_products demo_world (query_products ''id'' (store demo_uploaded)) [] demo_uploaded =
       Inr (demo_dirty, demo_after_loop)
   \<and> \<not> read_raises demo_world SelectRequest (tick demo_after_loop)
   \<and> query_request ''id'' (store demo_uploaded) = Some demo_request
   \<and> \<not> commit_raises demo_world (Suc (tick demo_after_loop))
   \<and> query_request ''id'' (store (process_images demo_world ''id'' demo_uploaded)) =
       Some (demo_request\<lparr>processing_request.status := ''completed'',
                           completed_at := Some (utcnow demo_world (tick demo_after_loop))\<rparr>)
   \<and> store (process_images demo_world ''id'' demo_uploaded) \<noteq> store demo_uploaded"
proof -
  have q: "query_request ''id'' (store demo_uploaded) = Some demo_request"
    by (simp add: demo_uploaded_eq demo_request_def query_request_def)
  have c: "\<not> commit_raises demo_world (Suc (tick demo_after_loop))"
    "\<not> read_raises demo_world SelectProducts (tick demo_uploaded)"
    "\<not> read_raises demo_world SelectRequest (tick demo_after_loop)"
    by (simp_all add: demo_world_reads)
  have n: "store (process_images demo_world ''id'' demo_uploaded) \<noteq> store demo_uploaded"
  proof -
    have "store demo_done \<noteq> store demo_uploaded"
      by (simp add: demo_done_store demo_uploaded_eq)
    then show ?thesis by (simp add: demo_done_def)
  qed
  have e: "map (\<lambda>r. (processing_request.status r, completed_at r)) (requests (store demo_done)) =
       [(''completed'', Some 1005)]"
    "map product.status (query_products ''id'' (store demo_done)) = [''processed'', ''processed'']"
    by (simp_all add: demo_done_store query_products_def)
  from job_completion [where w = demo_world and st = demo_done] demo_reachable(2)
  have "\<forall>r\<in>set (requests (store demo_done)).
         (completed_at r \<noteq> None \<longleftrightarrow> processing_request.status r = ''completed'')"
    by blast
  from job_completion [where w = demo_world and st = demo_uploaded and rid = "''id''"
      and dirty = demo_dirty and ?st1.0 = demo_after_loop and r = demo_request]
    demo_loop q c
  have "query_request ''id'' (store (process_images demo_world ''id'' demo_uploaded)) =
       Some (demo_request\<lparr>processing_request.status := ''completed'',
                           completed_at := Some (utcnow demo_world (tick demo_after_loop))\<rparr>)"
    by blast
  then show ?thesis using demo_reachable(2) demo_loop q c n e by simp
qed

subsection \<open>C8: a run that fails\<close>

lemma get_status_fst: "store a = store b \<Longrightarrow> fst (get_status rid a) = fst (get_status rid b)"
  by (simp add: get_status_def Let_def split: option.splits)

text \<open>
  C8, as amended. When an exception reaches the outer handler of a run before the commit
  or in the commit itself (the query of the products raises, the loop over the rows
  raises, the query of the request raises, or the commit raises), the committed tables
  are those from before the run: none of the rows the loop had already gone through and no
  change of the request is persisted. One line is printed for the error, no webhook is
  called, and a status query answers as it did before the run: the request keeps its last
  persisted status. When the exception comes after the commit (the request is read again
  for the webhook), one line is printed as well, and the writes of the run stay persisted
  in full: the request is \<open>completed\<close> and all its rows are \<open>processed\<close>.
\<close>

theorem failed_run_rolled_back:
  "((read_raises w SelectProducts (tick st) \<and> st1 = st)
      \<or> (\<not> read_raises w SelectProducts (tick st)
          \<and> process_products w (query_products rid (store st)) [] st = Inl st1)
      \<or> (\<not> read_raises w SelectProducts (tick st)
          \<and> process_products w (query_products rid (store st)) [] st = Inr (dirty, st1)
          \<and> (read_raises w SelectRequest (tick st1)
              \<or> commit_raises w (tick (snd (complete_request w rid st1))))) \<longrightarrow>
      store (process_images w rid st) = store st
      \<and> log (process_images w rid st) = log st1 @ [ProcessingError rid]
      \<and> post_calls (process_images w rid st) = post_calls st
      \<and> fst (get_status rid' (process_images w rid st)) = fst (get_status rid' st))
   \<and> (\<not> read_raises w SelectProducts (tick st)
        \<and> process_products w (query_products rid (store st)) [] st = Inr (dirty, st1)
        \<and> \<not> read_raises w SelectRequest (tick st1)
        \<and> query_request rid (store st) = Some r
        \<and> \<not> commit_raises w (Suc (tick st1))
        \<and> read_raises w RefreshRequest (Suc (Suc (tick st1))) \<longrightarrow>
        log (process_images w rid st) = log st1 @ [ProcessingError rid]
        \<and> store (process_images w rid st) =
            commit_updates dirty
              (Some (r\<lparr>processing_request.status := ''completed'',
                        completed_at := Some (utcnow w (tick st1))\<rparr>))
              (store st)
        \<and> query_request rid (store (process_images w rid st)) =
            Some (r\<lparr>processing_request.status := ''completed'',
                     completed_at := Some (utcnow w (tick st1))\<rparr>)
        \<and> (\<forall>p\<in>set (query_products rid (store (process_images w rid st))).
              product.status p = ''processed''))"
proof (intro conjI impI)
  assume a: "(read_raises w SelectProducts (tick st) \<and> st1 = st)
      \<or> (\<not> read_raises w SelectProducts (tick st)
          \<and> process_products w (query_products rid (store st)) [] st = Inl st1)
      \<or> (\<not> read_raises w SelectProducts (tick st)
          \<and> process_products w (query_products rid (store st)) [] st = Inr (dirty, st1)
          \<and> (read_raises w SelectRequest (tick st1)
              \<or> commit_raises w (tick (snd (complete_request w rid st1)))))"
  have b: "store (process_images w rid st) = store st
     \<and> log (process_images w rid st) = log st1 @ [ProcessingError rid]
     \<and> post_calls (process_images w rid st) = post_calls st"
    using a
  proof (elim disjE conjE)
    assume "read_raises w SelectProducts (tick st)" "st1 = st"
    then show ?thesis by (simp add: process_images_def)
  next
    assume r1: "\<not> read_raises w SelectProducts (tick st)"
      and l: "process_products w (query_products rid (store st)) [] st = Inl st1"
    from process_products_Inl [OF l] r1 l show ?thesis by (simp add: process_images_def)
  next
    assume r1: "\<not> read_raises w SelectProducts (tick st)"
      and l: "process_products w (query_products rid (store st)) [] st = Inr (dirty, st1)"
      and r2: "read_raises w SelectRequest (tick st1)"
    from process_products_Inr [OF l] r1 l r2 show ?thesis by (simp add: process_images_def)
  next
    assume r1: "\<not> read_raises w SelectProducts (tick st)"
      and l: "process_products w (query_products rid (store st)) [] st = Inr (dirty, st1)"
      and c: "commit_raises w (tick (snd (complete_request w rid st1)))"
    from process_products_Inr [OF l]
    have s: "store st1 = store st" "post_calls st1 = post_calls st" by simp_all
    obtain dr st2 where cr: "complete_request w rid st1 = (dr, st2)" by force
    note ce = complete_request_eq [OF cr]
    show ?thesis
    proof (cases "read_raises w SelectRequest (tick st1)")
      case True
      then show ?thesis using r1 l s by (simp add: process_images_def)
    next
      case False
      then have "process_images w rid st =
          st2\<lparr>tick := Suc (tick st2), log := log st2 @ [ProcessingError rid]\<rparr>"
        using r1 l c cr by (simp add: process_images_def)
      then show ?thesis using s ce by simp
    qed
  qed
  then show "store (process_images w rid st) = store st"
    and "log (process_images w rid st) = log st1 @ [ProcessingError rid]"
    and "post_calls (process_images w rid st) = post_calls st"
    by simp_all
  from b show "fst (get_status rid' (process_images w rid st)) = fst (get_status rid' st)"
    using get_status_fst [of "process_images w rid st" st rid'] by simp
next
  assume a: "\<not> read_raises w SelectProducts (tick st)
        \<and> process_products w (query_products rid (store st)) [] st = Inr (dirty, st1)
        \<and> \<not> read_raises w SelectRequest (tick st1)
        \<and> query_request rid (store st) = Some r
        \<and> \<not> commit_raises w (Suc (tick st1))
        \<and> read_raises w RefreshRequest (Suc (Suc (tick st1)))"
  let ?r' = "r\<lparr>processing_request.status := ''completed'', completed_at := Some (utcnow w (tick st1))\<rparr>"
  from a process_products_Inr [of w "query_products rid (store st)" "[]" st dirty st1]
  have s1: "store st1 = store st"
    and qs: "list_all2 processed_of (query_products rid (store st)) dirty"
    by auto
  have cr: "complete_request w rid st1 = (Some ?r', st1\<lparr>tick := Suc (tick st1)\<rparr>)"
    using a s1 by (simp add: complete_request_Some)
  have run: "process_images w rid st =
      st1\<lparr>store := commit_updates dirty (Some ?r') (store st1),
          tick := Suc (Suc (tick st1)), log := log st1 @ [ProcessingError rid]\<rparr>"
    using a cr by (simp add: process_images_def Let_def)
  show "log (process_images w rid st) = log st1 @ [ProcessingError rid]"
    by (simp add: run)
  show st: "store (process_images w rid st) = commit_updates dirty (Some ?r') (store st)"
    by (simp add: run s1)
  have "fst (complete_request w rid st1) = Some ?r'" by (simp add: cr)
  then show "query_request rid (store (process_images w rid st)) = Some ?r'"
    unfolding st using query_request_after_commit [OF s1, of rid dirty w] a by simp
  show "\<forall>p\<in>set (query_products rid (store (process_images w rid st))). product.status p = ''processed''"
    unfolding st using flush_all_processed [OF qs] by blast
qed

lemma demo_db_down_loop:
  "process_products demo_world_db_down (query_products ''id'' (store demo_uploaded)) [] demo_uploaded =
     Inr (demo_dirty, demo_after_loop)"
  by (simp add: demo_uploaded_eq demo_dirty_def demo_after_loop_def query_products_def
        process_product_def download_image_def convert_rgb_def demo_world_db_down_def
        demo_world_def string_defs Let_def)

lemma demo_select_down_loop:
  "process_products demo_world_select_down (query_products ''id'' (store demo_uploaded)) [] demo_uploaded =
     Inr (demo_dirty, demo_after_loop)"
  by (simp add: demo_uploaded_eq demo_dirty_def demo_after_loop_def query_products_def
        process_product_def download_image_def convert_rgb_def demo_world_select_down_def
        demo_world_def string_defs Let_def)

lemma demo_refresh_down_loop:
  "process_products demo_world_refresh_down (query_products ''id'' (store demo_uploaded)) [] demo_uploaded =
     Inr (demo_dirty, demo_after_loop)"
  by (simp add: demo_uploaded_eq demo_dirty_def demo_after_loop_def query_products_def
        process_product_def download_image_def convert_rgb_def demo_world_refresh_down_def
        demo_world_def string_defs Let_def)

lemma demo_refresh_down_facts:
  "\<not> read_raises demo_world_refresh_down SelectProducts (tick demo_uploaded)"
  "\<not> read_raises demo_world_refresh_down SelectRequest (tick demo_after_loop)"
  "\<not> commit_raises demo_world_refresh_down (Suc (tick demo_after_loop))"
  "read_raises demo_world_refresh_down RefreshRequest (Suc (Suc (tick demo_after_loop)))"
  "utcnow demo_world_refresh_down (tick demo_after_loop) = 1005"
  by (simp_all add: demo_world_refresh_down_def demo_world_def demo_after_loop_def)

lemma demo_request_query: "query_request ''id'' (store demo_uploaded) = Some demo_request"
  by (simp add: demo_uploaded_eq demo_request_def query_request_def)

lemma demo_refresh_down_run:
  "process_images demo_world_refresh_down ''id'' demo_uploaded =
     demo_after_loop\<lparr>store := store demo_done, tick := 7,
        log := [DownloadFailed ''http://a/3.jpg'' 404, ProcessingError ''id'']\<rparr>"
proof -
  have cr: "complete_request demo_world_refresh_down ''id'' demo_after_loop =
      (Some (demo_request\<lparr>processing_request.status := ''completed'', completed_at := Some 1005\<rparr>),
       demo_after_loop\<lparr>tick := 6\<rparr>)"
    using demo_request_query demo_refresh_down_facts(5)
    by (simp add: complete_request_def demo_after_loop_def)
  have st: "commit_updates demo_dirty
      (Some (demo_request\<lparr>processing_request.status := ''completed'', completed_at := Some 1005\<rparr>))
      (store demo_after_loop) = store demo_done"
    by (simp add: demo_done_store demo_after_loop_def demo_uploaded_eq demo_dirty_def
          demo_request_def commit_updates_def flush_products_def flush_request_def)
  have t: "\<not> commit_raises demo_world_refresh_down 6" "read_raises demo_world_refresh_down RefreshRequest 7"
    by (simp_all add: demo_world_refresh_down_def demo_world_def)
  show ?thesis
    using demo_refresh_down_facts(1,2) t
    apply (simp add: process_images_def demo_refresh_down_loop cr Let_def)
    apply (simp add: st)
    apply (simp add: demo_after_loop_def)
    done
qed

theorem failed_run_rolled_back_witness:
  "\<not> read_raises demo_world_select_down SelectProducts (tick demo_uploaded)
   \<and> process_products demo_world_select_down (query_products ''id'' (store demo_uploaded)) [] demo_uploaded =
       Inr (demo_dirty, demo_after_loop)
   \<and> map product.status demo_dirty = [''processed'', ''processed'']
   \<and> read_raises demo_world_select_down SelectRequest (tick demo_after_loop)
   \<and> store (process_images demo_world_select_down ''id'' demo_uploaded) = store demo_uploaded
   \<and> log (process_images demo_world_select_down ''id'' demo_uploaded) =
       [DownloadFailed ''http://a/3.jpg'' 404, ProcessingError ''id'']
   \<and> post_calls (process_images demo_world_select_down ''id'' demo_uploaded) = []
   \<and> process_products demo_world_db_down (query_products ''id'' (store demo_uploaded)) [] demo_uploaded =
       Inr (demo_dirty, demo_after_loop)
   \<and> commit_raises demo_world_db_down (tick (snd (complete_request demo_world_db_down ''id'' demo_after_loop)))
   \<and> store (process_images demo_world_db_down ''id'' demo_uploaded) = store demo_uploaded
   \<and> log (process_images demo_world_db_down ''id'' demo_uploaded) =
       [DownloadFailed ''http://a/3.jpg'' 404, ProcessingError ''id'']
   \<and> fst (get_status ''id'' (process_images demo_world_db_down ''id'' demo_uploaded)) =
       fst (get_status ''id'' demo_uploaded)
   \<and> read_raises demo_world_refresh_down RefreshRequest (Suc (Suc (tick demo_after_loop)))
   \<and> log (process_images demo_world_refresh_down ''id'' demo_uploaded) =
       [DownloadFailed ''http://a/3.jpg'' 404, ProcessingError ''id'']
   \<and> query_request ''id'' (store (process_images demo_world_refresh_down ''id'' demo_uploaded)) =
       Some (demo_request\<lparr>processing_request.status := ''completed'', completed_at := Some 1005\<rparr>)"
proof -
  have s: "\<not> read_raises demo_world_select_down SelectProducts (tick demo_uploaded)"
    "read_raises demo_world_select_down SelectRequest (tick demo_after_loop)"
    by (simp_all add: demo_world_select_down_def)
  have d: "\<not> read_raises demo_world_db_down SelectProducts (tick demo_uploaded)"
    "commit_raises demo_world_db_down (tick (snd (complete_request demo_world_db_down ''id'' demo_after_loop)))"
    by (simp_all add: demo_world_db_down_def demo_world_def)
  from failed_run_rolled_back [where w = demo_world_select_down and rid = "''id''"
      and st = demo_uploaded and ?st1.0 = demo_after_loop and dirty = demo_dirty
      and rid' = "''id''"] demo_select_down_loop s
  have 1: "store (process_images demo_world_select_down ''id'' demo_uploaded) = store demo_uploaded
     \<and> log (process_images demo_world_select_down ''id'' demo_uploaded) =
         log demo_after_loop @ [ProcessingError ''id'']
     \<and> post_calls (process_images demo_world_select_down ''id'' demo_uploaded) = post_calls demo_uploaded"
    by simp
  from failed_run_rolled_back [where w = demo_world_db_down and rid = "''id''"
      and st = demo_uploaded and ?st1.0 = demo_after_loop and dirty = demo_dirty
      and rid' = "''id''"] demo_db_down_loop d
  have 2: "store (process_images demo_world_db_down ''id'' demo_uploaded) = store demo_uploaded
     \<and> log (process_images demo_world_db_down ''id'' demo_uploaded) =
         log demo_after_loop @ [ProcessingError ''id'']
     \<and> fst (get_status ''id'' (process_images demo_world_db_down ''id'' demo_uploaded)) =
         fst (get_status ''id'' demo_uploaded)"
    by simp
  from failed_run_rolled_back [where w = demo_world_refresh_down and rid = "''id''"
      and st = demo_uploaded and ?st1.0 = demo_after_loop and dirty = demo_dirty
      and r = demo_request]
    demo_refresh_down_loop demo_refresh_down_facts demo_request_query
  have 3: "log (process_images demo_world_refresh_down ''id'' demo_uploaded) =
         log demo_after_loop @ [ProcessingError ''id'']
     \<and> query_request ''id'' (store (process_images demo_world_refresh_down ''id'' demo_uploaded)) =
         Some (demo_request\<lparr>processing_request.status := ''completed'',
                 completed_at := Some (utcnow demo_world_refresh_down (tick demo_after_loop))\<rparr>)"
    by blast
  show ?thesis
    using 1 2 3 s d demo_select_down_loop demo_db_down_loop demo_refresh_down_facts(4,5)
    by (simp add: demo_after_loop_def demo_uploaded_eq demo_dirty_def)
qed

text \<open>
  The claim as stated fails for an exception after the commit: the run prints its error
  line, and the rows and the request it wrote are persisted, where before the run the
  rows and the request were \<open>pending\<close>.
\<close>

theorem error_after_commit_stays_committed:
  "map product.status (products (store demo_uploaded)) = [''pending'', ''pending'']
   \<and> map processing_request.status (requests (store demo_uploaded)) = [''pending'']
   \<and> log (process_images demo_world_refresh_down ''id'' demo_uploaded) =
       [DownloadFailed ''http://a/3.jpg'' 404, ProcessingError ''id'']
   \<and> map product.status (products (store (process_images demo_world_refresh_down ''id'' demo_uploaded))) =
       [''processed'', ''processed'']
   \<and> map processing_request.status
         (requests (store (process_images demo_world_refresh_down ''id'' demo_uploaded))) =
       [''completed'']"
  unfolding demo_refresh_down_run by (simp add: demo_done_store demo_uploaded_eq)

subsection \<open>C9: the webhook\<close>

lemma call_webhook_effects:
  "post_calls (call_webhook w rid url st) = post_calls st @ [(url, webhook_payload rid, 5)]"
  "log (call_webhook w rid url st) =
     log st @ (case http_post w (tick st) url of
                 TransportError \<Rightarrow> [WebhookError rid]
               | Response code body \<Rightarrow>
                   if 200 \<le> code \<and> code < 300 then [] else [WebhookFailed code])"
  by (auto simp: call_webhook_def Let_def split: http_result.splits)

text \<open>
  C9, as amended. In a run that commits for a request that exists, and that reads the
  request again after the commit without an exception, exactly one POST is sent when the
  request's \<open>callback_url\<close> is set and not empty, and none otherwise; it goes to that URL
  with the payload of the request id and the status \<open>completed\<close> and the timeout 5. A
  response outside 200 to 299 or a transport error adds one printed line and nothing
  else; a response inside adds none. Whatever the answer, the request is persisted as
  \<open>completed\<close>.
\<close>

theorem webhook_single_attempt:
  assumes r1: "\<not> read_raises w SelectProducts (tick st)"
    and l: "process_products w (query_products rid (store st)) [] st = Inr (dirty, st1)"
    and r2: "\<not> read_raises w SelectRequest (tick st1)"
    and q: "query_request rid (store st) = Some r"
    and c: "\<not> commit_raises w (Suc (tick st1))"
    and r3: "\<not> read_raises w RefreshRequest (Suc (Suc (tick st1)))"
  shows "post_calls (process_images w rid st) =
       post_calls st @
         (case callback_url r of
            None \<Rightarrow> []
          | Some url \<Rightarrow>
              if url = [] then []
              else [(url, [(''request_id'', rid), (''status'', ''completed'')], 5)])
     \<and> log (process_images w rid st) =
       log st1 @
         (case callback_url r of
            None \<Rightarrow> []
          | Some url \<Rightarrow>
              if url = [] then []
              else (case http_post w (Suc (Suc (tick st1))) url of
                      TransportError \<Rightarrow> [WebhookError rid]
                    | Response code body \<Rightarrow>
                        if 200 \<le> code \<and> code < 300 then [] else [WebhookFailed code]))
     \<and> map_option processing_request.status
           (query_request rid (store (process_images w rid st))) = Some ''completed''"
proof -
  let ?r' = "r\<lparr>processing_request.status := ''completed'', completed_at := Some (utcnow w (tick st1))\<rparr>"
  let ?st3 = "st1\<lparr>store := commit_updates dirty (Some ?r') (store st1),
                   tick := Suc (Suc (tick st1))\<rparr>"
  from process_products_Inr [OF l]
  have s1: "store st1 = store st" "post_calls st1 = post_calls st" by simp_all
  have cr: "complete_request w rid st1 = (Some ?r', st1\<lparr>tick := Suc (tick st1)\<rparr>)"
    using q s1 by (simp add: complete_request_Some)
  have run: "process_images w rid st =
      (case callback_url r of
         None \<Rightarrow> ?st3
       | Some url \<Rightarrow> if url = [] then ?st3 else call_webhook w rid url ?st3)"
    using r1 l r2 cr c r3 by (simp add: process_images_def Let_def)
  have posts: "post_calls (process_images w rid st) =
       post_calls st @
         (case callback_url r of
            None \<Rightarrow> []
          | Some url \<Rightarrow>
              if url = [] then []
              else [(url, [(''request_id'', rid), (''status'', ''completed'')], 5)])"
    unfolding run using s1
    by (simp add: call_webhook_effects webhook_payload_def split: option.splits)
  have logs: "log (process_images w rid st) =
       log st1 @
         (case callback_url r of
            None \<Rightarrow> []
          | Some url \<Rightarrow>
              if url = [] then []
              else (case http_post w (Suc (Suc (tick st1))) url of
                      TransportError \<Rightarrow> [WebhookError rid]
                    | Response code body \<Rightarrow>
                        if 200 \<le> code \<and> code < 300 then [] else [WebhookFailed code]))"
    unfolding run by (simp add: call_webhook_effects split: option.splits)
  have "store (process_images w rid st) =
      commit_updates dirty (fst (complete_request w rid st1)) (store st)"
    using process_images_commit [OF r1 l r2] cr c by simp
  then have "query_request rid (store (process_images w rid st)) = Some ?r'"
    using query_request_after_commit [OF s1(1), of rid dirty w] q by simp
  then show ?thesis using posts logs by simp
qed

theorem webhook_single_attempt_witness:
  "\<not> read_raises demo_world SelectProducts (tick demo_uploaded)
   \<and> process_products demo_world (query_products ''id'' (store demo_uploaded)) [] demo_uploaded =
     Inr (demo_dirty, demo_after_loop)
   \<and> \<not> read_raises demo_world SelectRequest (tick demo_after_loop)
   \<and> query_request ''id'' (store demo_uploaded) = Some demo_request
   \<and> \<not> commit_raises demo_world (Suc (tick demo_after_loop))
   \<and> \<not> read_raises demo_world RefreshRequest (Suc (Suc (tick demo_after_loop)))
   \<and> http_post demo_world 7 ''http://hook'' = TransportError
   \<and> post_calls (process_images demo_world ''id'' demo_uploaded) =
       [(''http://hook'', [(''request_id'', ''id''), (''status'', ''completed'')], 5)]
   \<and> log (process_images demo_world ''id'' demo_uploaded) =
       [DownloadFailed ''http://a/3.jpg'' 404, WebhookError ''id'']
   \<and> map_option processing_request.status
         (query_request ''id'' (store (process_images demo_world ''id'' demo_uploaded))) =
       Some ''completed''"
proof -
  have r: "\<not> read_raises demo_world SelectProducts (tick demo_uploaded)"
    "\<not> read_raises demo_world SelectRequest (tick demo_after_loop)"
    "\<not> commit_raises demo_world (Suc (tick demo_after_loop))"
    "\<not> read_raises demo_world RefreshRequest (Suc (Suc (tick demo_after_loop)))"
    by (simp_all add: demo_world_reads)
  have p: "http_post demo_world 7 ''http://hook'' = TransportError"
    "http_post demo_world (Suc (Suc (tick demo_after_loop))) ''http://hook'' = TransportError"
    by (simp_all add: demo_world_def)
  from webhook_single_attempt [OF r(1) demo_loop r(2) demo_request_query r(3) r(4)] p
  show ?thesis using demo_loop demo_request_query r
    by (simp add: demo_request_def demo_after_loop_def demo_uploaded_eq)
qed

text \<open>
  The claim as stated fails when the read of the request after the commit raises: the
  request has a callback URL and is persisted as \<open>completed\<close>, and no POST is sent.
\<close>

theorem no_webhook_when_reread_fails:
  "map (\<lambda>r. (processing_request.status r, callback_url r))
       (requests (store (process_images demo_world_refresh_down ''id'' demo_uploaded))) =
     [(''completed'', Some ''http://hook'')]
   \<and> post_calls (process_images demo_world_refresh_down ''id'' demo_uploaded) = []
   \<and> log (process_images demo_world_refresh_down ''id'' demo_uploaded) =
       [DownloadFailed ''http://a/3.jpg'' 404, ProcessingError ''id'']"
  unfolding demo_refresh_down_run
  by (simp add: demo_done_store demo_after_loop_def demo_uploaded_eq)

subsection \<open>C4: when the rows are persisted\<close>

text \<open>
  C4, as amended. The row mutations are only registered in the session while the loop
  runs: after any number of rows the committed tables are those from before the run, so a
  status query issued mid-flight answers as it did before the run, while the session
  holds the rows gone through as \<open>processed\<close>. The single commit at the end of the run
  persists all the rows of the request, \<open>processed\<close> and with their output URLs,
  together with the request; whenever a run changes the committed tables, it is by that
  commit.
\<close>

theorem rows_persisted_at_commit:
  "(after_products w rid k st = Inr (dirty, st') \<longrightarrow>
      store st' = store st
      \<and> fst (get_status rid' st') = fst (get_status rid' st)
      \<and> length dirty = min k (length (query_products rid (store st)))
      \<and> (\<forall>q\<in>set dirty. product.status q = ''processed''))
   \<and> (\<not> read_raises w SelectProducts (tick st)
        \<and> process_products w (query_products rid (store st)) [] st = Inr (dirty, st1)
        \<and> \<not> read_raises w SelectRequest (tick st1)
        \<and> \<not> commit_raises w (tick (snd (complete_request w rid st1))) \<longrightarrow>
        store (process_images w rid st) =
          commit_updates dirty (fst (complete_request w rid st1)) (store st)
        \<and> (\<forall>p\<in>set (query_products rid (store (process_images w rid st))).
              product.status p = ''processed'' \<and> output_image_urls p \<noteq> None))
   \<and> (store (process_images w rid st) \<noteq> store st \<longrightarrow>
        (\<exists>dirty st1. process_products w (query_products rid (store st)) [] st = Inr (dirty, st1)
           \<and> store (process_images w rid st) =
               commit_updates dirty (fst (complete_request w rid st1)) (store st))
        \<and> (\<forall>p\<in>set (query_products rid (store (process_images w rid st))).
              product.status p = ''processed'' \<and> output_image_urls p \<noteq> None))"
proof (intro conjI impI)
  assume a: "after_products w rid k st = Inr (dirty, st')"
  from process_products_Inr [of w "take k (query_products rid (store st))" "[]" st dirty st'] a
  have s: "store st' = store st"
    and qs: "list_all2 processed_of (take k (query_products rid (store st))) dirty"
    by (auto simp: after_products_def)
  show "store st' = store st" by (rule s)
  show "fst (get_status rid' st') = fst (get_status rid' st)" using s by (rule get_status_fst)
  show "length dirty = min k (length (query_products rid (store st)))"
    using list_all2_lengthD [OF qs] by (simp add: min.commute)
  show "\<forall>q\<in>set dirty. product.status q = ''processed''"
    using list_all2_right [OF qs] by (auto simp: processed_of_def)
next
  assume a: "\<not> read_raises w SelectProducts (tick st)
        \<and> process_products w (query_products rid (store st)) [] st = Inr (dirty, st1)
        \<and> \<not> read_raises w SelectRequest (tick st1)
        \<and> \<not> commit_raises w (tick (snd (complete_request w rid st1)))"
  then have st: "store (process_images w rid st) =
          commit_updates dirty (fst (complete_request w rid st1)) (store st)"
    by (simp add: process_images_commit)
  then show "store (process_images w rid st) =
          commit_updates dirty (fst (complete_request w rid st1)) (store st)" .
  from a process_products_Inr [of w "query_products rid (store st)" "[]" st dirty st1]
  have qs: "list_all2 processed_of (query_products rid (store st)) dirty" by auto
  show "\<forall>p\<in>set (query_products rid (store (process_images w rid st))).
              product.status p = ''processed'' \<and> output_image_urls p \<noteq> None"
    unfolding st using flush_all_processed [OF qs] by blast
next
  assume a: "store (process_images w rid st) \<noteq> store st"
  from process_images_changed [OF a] obtain dirty st1 where
    l: "process_products w (query_products rid (store st)) [] st = Inr (dirty, st1)"
    and st: "store (process_images w rid st) =
         commit_updates dirty (fst (complete_request w rid st1)) (store st)"
    by blast
  then show "\<exists>dirty st1. process_products w (query_products rid (store st)) [] st = Inr (dirty, st1)
           \<and> store (process_images w rid st) =
               commit_updates dirty (fst (complete_request w rid st1)) (store st)"
    by blast
  from process_products_Inr [OF l]
  have qs: "list_all2 processed_of (query_products rid (store st)) dirty" by auto
  show "\<forall>p\<in>set (query_products rid (store (process_images w rid st))).
              product.status p = ''processed'' \<and> output_image_urls p \<noteq> None"
    unfolding st using flush_all_processed [OF qs] by blast
qed

lemma demo_first_row:
  "after_products demo_world ''id'' 1 demo_uploaded = Inr ([hd demo_dirty], demo_after_loop)"
  by (simp add: after_products_def demo_uploaded_eq demo_dirty_def demo_after_loop_def
        query_products_def process_product_def download_image_def convert_rgb_def demo_world_def
        string_defs Let_def)

lemma demo_status_pending:
  "fst (get_status ''id'' demo_uploaded) =
     Inr (JObj
       [(''request_id'', JStr ''id''), (''status'', JStr ''pending''),
        (''created_at'', JNum 1001), (''completed_at'', JNull),
        (''callback_url'', JStr ''http://hook''),
        (''products'',
         JArr
          [JObj [(''serial_number'', JStr ''1''), (''product_name'', JStr ''Widget''),
                 (''input_image_urls'', JStr ''http://a/1.jpg, http://a/3.jpg''),
                 (''output_image_urls'', JNull), (''status'', JStr ''pending'')],
           JObj [(''serial_number'', JStr ''2''), (''product_name'', JStr ''Gadget''),
                 (''input_image_urls'', JStr []),
                 (''output_image_urls'', JNull), (''status'', JStr ''pending'')]])])"
  by (simp add: get_status_def demo_uploaded_eq query_request_def query_products_def
        product_data_def json_opt_def Let_def)

theorem rows_persisted_at_commit_witness:
  "after_products demo_world ''id'' 1 demo_uploaded = Inr ([hd demo_dirty], demo_after_loop)
   \<and> store demo_after_loop = store demo_uploaded
   \<and> fst (get_status ''id'' demo_after_loop) = fst (get_status ''id'' demo_uploaded)
   \<and> \<not> read_raises demo_world SelectProducts (tick demo_uploaded)
   \<and> process_products demo_world (query_products ''id'' (store demo_uploaded)) [] demo_uploaded =
       Inr (demo_dirty, demo_after_loop)
   \<and> \<not> read_raises demo_world SelectRequest (tick demo_after_loop)
   \<and> \<not> commit_raises demo_world (tick (snd (complete_request demo_world ''id'' demo_after_loop)))
   \<and> store (process_images demo_world ''id'' demo_uploaded) =
       commit_updates demo_dirty (fst (complete_request demo_world ''id'' demo_after_loop))
         (store demo_uploaded)
   \<and> map product.status (query_products ''id'' (store (process_images demo_world ''id'' demo_uploaded)))
       = [''processed'', ''processed'']"
proof -
  have c: "\<not> commit_raises demo_world (tick (snd (complete_request demo_world ''id'' demo_after_loop)))"
    "\<not> read_raises demo_world SelectProducts (tick demo_uploaded)"
    "\<not> read_raises demo_world SelectRequest (tick demo_after_loop)"
    by (simp_all add: demo_world_reads)
  from rows_persisted_at_commit [where w = demo_world and rid = "''id''" and k = 1
      and st = demo_uploaded and dirty = "[hd demo_dirty]" and st' = demo_after_loop
      and rid' = "''id''", THEN conjunct1] demo_first_row
  have 1: "store demo_after_loop = store demo_uploaded
      \<and> fst (get_status ''id'' demo_after_loop) = fst (get_status ''id'' demo_uploaded)"
    by simp
  from rows_persisted_at_commit [where w = demo_world and rid = "''id''"
      and st = demo_uploaded and dirty = demo_dirty and ?st1.0 = demo_after_loop,
      THEN conjunct2, THEN conjunct1] demo_loop c
  have 2: "store (process_images demo_world ''id'' demo_uploaded) =
       commit_updates demo_dirty (fst (complete_request demo_world ''id'' demo_after_loop))
         (store demo_uploaded)"
    by simp
  have 3: "map product.status (query_products ''id'' (store (process_images demo_world ''id'' demo_uploaded)))
       = [''processed'', ''processed'']"
    using demo_done_store by (simp add: demo_done_def query_products_def)
  show ?thesis using 1 2 3 c demo_first_row demo_loop by simp
qed

text \<open>
  The claim as stated fails: after the first of two rows the session holds that row as
  \<open>processed\<close> with its output URL, and a status query still shows it \<open>pending\<close>
  with no output.
\<close>

theorem mid_flight_row_still_pending:
  "after_products demo_world ''id'' 1 demo_uploaded = Inr ([hd demo_dirty], demo_after_loop)
   \<and> product.status (hd demo_dirty) = ''processed''
   \<and> output_image_urls (hd demo_dirty) = Some ''/processed_images/id111.jpg''
   \<and> fst (get_status ''id'' demo_after_loop) =
     Inr (JObj
       [(''request_id'', JStr ''id''), (''status'', JStr ''pending''),
        (''created_at'', JNum 1001), (''completed_at'', JNull),
        (''callback_url'', JStr ''http://hook''),
        (''products'',
         JArr
          [JObj [(''serial_number'', JStr ''1''), (''product_name'', JStr ''Widget''),
                 (''input_image_urls'', JStr ''http://a/1.jpg, http://a/3.jpg''),
                 (''output_image_urls'', JNull), (''status'', JStr ''pending'')],
           JObj [(''serial_number'', JStr ''2''), (''product_name'', JStr ''Gadget''),
                 (''input_image_urls'', JStr []),
                 (''output_image_urls'', JNull), (''status'', JStr ''pending'')]])])"
proof -
  have "store demo_after_loop = store demo_uploaded" by (simp add: demo_after_loop_def)
  then have "fst (get_status ''id'' demo_after_loop) = fst (get_status ''id'' demo_uploaded)"
    by (rule get_status_fst)
  then show ?thesis using demo_first_row demo_status_pending by (simp add: demo_dirty_def)
qed

subsection \<open>C10: null output URLs\<close>

text \<open>
  C10. In every reachable state a row has \<open>output_image_urls\<close> null exactly when its
  status is \<open>pending\<close>, and the status is \<open>pending\<close> or \<open>processed\<close>. The loop body
  sets \<open>output_image_urls\<close> to the comma-join of the references of the files it wrote,
  which is the empty string, not null, when it wrote none. The status response tells the
  two apart (\<open>null\<close> against the empty string), and the artifact writer writes the
  null case as an empty field.
\<close>

theorem output_urls_null_iff_pending:
  "(reachable w st \<longrightarrow>
      (\<forall>p\<in>set (products (store st)).
         (output_image_urls p = None \<longleftrightarrow> product.status p = ''pending'')
         \<and> (product.status p = ''pending'' \<or> product.status p = ''processed'')))
   \<and> (process_product w p st = Inr (p', st') \<longrightarrow>
        output_image_urls p' =
          Some (join '','' (map ((@) ''/'') (drop (length (file_writes st)) (file_writes st'))))
        \<and> product.status p' = ''processed''
        \<and> (file_writes st' = file_writes st \<longrightarrow> output_image_urls p' = Some []))
   \<and> json_opt (Some []) \<noteq> json_opt None
   \<and> output_row (q\<lparr>output_image_urls := None\<rparr>) =
        [serial_number q, product_name q, csv_field (input_image_urls q), []]"
proof (intro conjI impI)
  assume "reachable w st"
  from reachable_ok [OF this]
  show "\<forall>p\<in>set (products (store st)).
         (output_image_urls p = None \<longleftrightarrow> product.status p = ''pending'')
         \<and> (product.status p = ''pending'' \<or> product.status p = ''processed'')"
    by (simp add: db_ok_def product_ok_def)
next
  assume a: "process_product w p st = Inr (p', st')"
  then obtain s new_urls where s: "input_image_urls p = Some s"
    and u: "process_urls w (split CHR '','' s) [] st = (new_urls, st')"
    and p': "p' = p\<lparr>output_image_urls := Some (join '','' new_urls), product.status := ''processed''\<rparr>"
    by (auto simp: process_product_def split: option.splits prod.splits)
  from process_urls_effects [OF u] obtain added where
    e: "file_writes st' = file_writes st @ added" "new_urls = [] @ map ((@) ''/'') added"
    by blast
  then have n: "new_urls = map ((@) ''/'') (drop (length (file_writes st)) (file_writes st'))"
    by simp
  show o: "output_image_urls p' =
      Some (join '','' (map ((@) ''/'') (drop (length (file_writes st)) (file_writes st'))))"
    using p' n by simp
  show "product.status p' = ''processed''" using p' by simp
  show "output_image_urls p' = Some []" if "file_writes st' = file_writes st"
    using o that by simp
next
  show "json_opt (Some []) \<noteq> json_opt None" by (simp add: json_opt_def)
  show "output_row (q\<lparr>output_image_urls := None\<rparr>) =
        [serial_number q, product_name q, csv_field (input_image_urls q), []]"
    by (simp add: output_row_def or_empty_def)
qed

lemma demo_gadget_processed:
  "process_product demo_world demo_gadget demo_uploaded =
     Inr (demo_gadget\<lparr>output_image_urls := Some [], product.status := ''processed''\<rparr>, demo_uploaded)"
  by (simp add: process_product_def demo_gadget_def strip_def)

theorem output_urls_null_iff_pending_witness:
  "reachable demo_world demo_uploaded
   \<and> map (\<lambda>p. (output_image_urls p, product.status p)) (products (store demo_uploaded)) =
       [(None, ''pending''), (None, ''pending'')]
   \<and> reachable demo_world demo_done
   \<and> map (\<lambda>p. (output_image_urls p, product.status p)) (products (store demo_done)) =
       [(Some ''/processed_images/id111.jpg'', ''processed''), (Some [], ''processed'')]
   \<and> process_product demo_world demo_gadget demo_uploaded =
       Inr (demo_gadget\<lparr>output_image_urls := Some [], product.status := ''processed''\<rparr>, demo_uploaded)
   \<and> output_image_urls (demo_gadget\<lparr>output_image_urls := Some [], product.status := ''processed''\<rparr>)
       = Some []"
proof -
  from output_urls_null_iff_pending [where w = demo_world and st = demo_uploaded
      and p = demo_gadget and st' = demo_uploaded
      and p' = "demo_gadget\<lparr>output_image_urls := Some [], product.status := ''processed''\<rparr>"]
    demo_gadget_processed
  have 1: "output_image_urls (demo_gadget\<lparr>output_image_urls := Some [], product.status := ''processed''\<rparr>)
       = Some []"
    by blast
  from output_urls_null_iff_pending [where w = demo_world and st = demo_done] demo_reachable(2)
  have 2: "\<forall>p\<in>set (products (store demo_done)).
         (output_image_urls p = None \<longleftrightarrow> product.status p = ''pending'')"
    by blast
  show ?thesis
    using 1 2 demo_reachable demo_gadget_processed
    by (simp add: demo_done_store demo_uploaded_eq)
qed

subsection \<open>C5: the output artifact\<close>

lemma get_status_completed:
  assumes "query_request rid (store s) = Some r" "processing_request.status r = ''completed''"
  shows "snd (get_status rid s) =
      (if files s (output_path rid) = None
       then s\<lparr>files := (files s)(output_path rid \<mapsto>
                  Csv (output_header # map output_row (query_products rid (store s)))),
               file_writes := file_writes s @ [output_path rid]\<rparr>
       else s)"
  using assms by (simp add: get_status_def generate_output_csv_def Let_def)

text \<open>
  C5. For a completed request, a status query writes the artifact only when no file is at
  its path: if there is none it writes \<open>output/<request id>_output.csv\<close> once, the
  header row followed by one row per row of the request in load order (serial number,
  product name, input URLs, output URLs or the empty string); if there is one it changes
  nothing. A second status query therefore changes nothing, and its file is the one of
  the first. When the file has been deleted the next status query writes the same
  content again.
\<close>

theorem artifact_generated_once:
  assumes q: "query_request rid (store st) = Some r"
    and c: "processing_request.status r = ''completed''"
  shows "(files st (output_path rid) = None \<longrightarrow>
       file_writes (snd (get_status rid st)) = file_writes st @ [output_path rid]
       \<and> files (snd (get_status rid st)) =
           (files st)(output_path rid \<mapsto>
              Csv ([''S. No'', ''Product Name'', ''Input Image Urls'', ''Output Image Urls''] #
                   map (\<lambda>p. [serial_number p, product_name p, csv_field (input_image_urls p),
                              or_empty (output_image_urls p)])
                       (query_products rid (store st)))))
     \<and> (files st (output_path rid) \<noteq> None \<longrightarrow> snd (get_status rid st) = st)
     \<and> snd (get_status rid (snd (get_status rid st))) = snd (get_status rid st)
     \<and> files (snd (get_status rid (st\<lparr>files := (files st)(output_path rid := None)\<rparr>)))
          (output_path rid)
        = Some (Csv ([''S. No'', ''Product Name'', ''Input Image Urls'', ''Output Image Urls''] #
                   map (\<lambda>p. [serial_number p, product_name p, csv_field (input_image_urls p),
                              or_empty (output_image_urls p)])
                       (query_products rid (store st))))
     \<and> output_path rid = ''output/'' @ rid @ ''_output.csv''"
proof -
  let ?content = "Csv (output_header # map output_row (query_products rid (store st)))"
  let ?explicit = "Csv ([''S. No'', ''Product Name'', ''Input Image Urls'', ''Output Image Urls''] #
                   map (\<lambda>p. [serial_number p, product_name p, csv_field (input_image_urls p),
                              or_empty (output_image_urls p)])
                       (query_products rid (store st)))"
  have content: "?content = ?explicit"
    by (simp add: output_header_def output_row_def)
  note step = get_status_completed [OF _ c]
  have 1: "files st (output_path rid) = None \<longrightarrow>
       file_writes (snd (get_status rid st)) = file_writes st @ [output_path rid]
       \<and> files (snd (get_status rid st)) = (files st)(output_path rid \<mapsto> ?explicit)"
    unfolding content [symmetric] using step [OF q] by simp
  have 2: "files st (output_path rid) \<noteq> None \<longrightarrow> snd (get_status rid st) = st"
    using step [OF q] by simp
  have s1: "store (snd (get_status rid st)) = store st" by (rule get_status_store)
  have ex: "files (snd (get_status rid st)) (output_path rid) \<noteq> None"
    using step [OF q] by simp
  have q1: "query_request rid (store (snd (get_status rid st))) = Some r" using q s1 by simp
  have 3: "snd (get_status rid (snd (get_status rid st))) = snd (get_status rid st)"
    using step [OF q1] ex by simp
  let ?deleted = "st\<lparr>files := (files st)(output_path rid := None)\<rparr>"
  have qd: "query_request rid (store ?deleted) = Some r" using q by simp
  have 4: "files (snd (get_status rid ?deleted)) (output_path rid) = Some ?explicit"
    unfolding content [symmetric] using step [OF qd] by simp
  have 5: "output_path rid = ''output/'' @ rid @ ''_output.csv''"
    by (simp add: output_path_def path_join_def OUTPUT_DIR_def)
  from 1 2 3 4 5 show ?thesis by blast
qed

lemma demo_done_eq:
  "demo_done =
     demo_after_loop\<lparr>store := store demo_done,
        log := [DownloadFailed ''http://a/3.jpg'' 404, WebhookError ''id''],
        post_calls := [(''http://hook'', [(''request_id'', ''id''), (''status'', ''completed'')], 5)],
        tick := 8\<rparr>"
proof -
  have "demo_done = process_images demo_world ''id'' demo_uploaded" by (simp add: demo_done_def)
  also have "\<dots> = demo_after_loop\<lparr>store := store (process_images demo_world ''id'' demo_uploaded),
        log := [DownloadFailed ''http://a/3.jpg'' 404, WebhookError ''id''],
        post_calls := [(''http://hook'', [(''request_id'', ''id''), (''status'', ''completed'')], 5)],
        tick := 8\<rparr>"
    apply (simp add: process_images_def demo_loop demo_world_reads)
    apply (simp add: complete_request_def query_request_def demo_after_loop_def
          demo_uploaded_eq call_webhook_def webhook_payload_def demo_world_def Let_def)
    done
  finally show ?thesis by (simp add: demo_done_def)
qed

lemma demo_done_files:
  "files demo_done (output_path ''id'') = None" "file_writes demo_done = [''processed_images/id111.jpg'']"
  by (subst demo_done_eq, simp add: demo_after_loop_def output_path_def path_join_def OUTPUT_DIR_def)+

theorem artifact_generated_once_witness:
  "query_request ''id'' (store demo_done) =
     Some (demo_request\<lparr>processing_request.status := ''completed'', completed_at := Some 1005\<rparr>)
   \<and> files demo_done (output_path ''id'') = None
   \<and> file_writes (snd (get_status ''id'' demo_done)) =
       [''processed_images/id111.jpg'', ''output/id_output.csv'']
   \<and> files (snd (get_status ''id'' demo_done)) ''output/id_output.csv'' = Some demo_artifact
   \<and> snd (get_status ''id'' (snd (get_status ''id'' demo_done))) = snd (get_status ''id'' demo_done)
   \<and> file_writes (snd (get_status ''id'' (snd (get_status ''id'' demo_done)))) =
       [''processed_images/id111.jpg'', ''output/id_output.csv'']"
proof -
  let ?r = "demo_request\<lparr>processing_request.status := ''completed'', completed_at := Some 1005\<rparr>"
  have q: "query_request ''id'' (store demo_done) = Some ?r"
    by (simp add: demo_done_store demo_request_def query_request_def)
  have c: "processing_request.status ?r = ''completed''" by simp
  have p: "output_path ''id'' = ''output/id_output.csv''"
    by (simp add: output_path_def path_join_def OUTPUT_DIR_def)
  have rows: "map (\<lambda>p. [serial_number p, product_name p, csv_field (input_image_urls p),
                              or_empty (output_image_urls p)])
                (query_products ''id'' (store demo_done)) =
      [[''1'', ''Widget'', ''http://a/1.jpg, http://a/3.jpg'', ''/processed_images/id111.jpg''],
       [''2'', ''Gadget'', [], []]]"
    by (simp add: demo_done_store query_products_def csv_field_def or_empty_def)
  from artifact_generated_once [OF q c] demo_done_files
  have "file_writes (snd (get_status ''id'' demo_done)) =
          file_writes demo_done @ [output_path ''id'']"
    and "files (snd (get_status ''id'' demo_done)) (output_path ''id'') = Some demo_artifact"
    and "snd (get_status ''id'' (snd (get_status ''id'' demo_done))) = snd (get_status ''id'' demo_done)"
    unfolding rows demo_artifact_def by simp_all
  then show ?thesis using q demo_done_files by (simp add: p)
qed

subsection \<open>C7: what an upload persists\<close>

lemma add_products_bad:
  "\<exists>row\<in>set rows. length row \<noteq> 3 \<Longrightarrow>
     \<exists>e. add_products rid rows pending = Inl e \<and> status_code e = 400"
  by (induction rows arbitrary: pending) auto

lemma add_products_good:
  "\<forall>row\<in>set rows. length row = 3 \<Longrightarrow>
     add_products rid rows pending =
       Inr (pending @
            map (\<lambda>row. \<lparr>product.pk = 0, product.request_id = rid,
                          serial_number = strip (row ! 0), product_name = strip (row ! 1),
                          input_image_urls = Some (strip (row ! 2)), output_image_urls = None,
                          product.status = ''pending''\<rparr>) rows)"
  by (induction rows arbitrary: pending) auto

lemma assign_pks_fields:
  "map (\<lambda>p. (product.request_id p, serial_number p, product_name p, input_image_urls p,
             output_image_urls p, product.status p)) (assign_pks n ps) =
   map (\<lambda>p. (product.request_id p, serial_number p, product_name p, input_image_urls p,
             output_image_urls p, product.status p)) ps"
  by (induction ps arbitrary: n) auto

text \<open>
  C7. An upload in which some data row has not exactly three fields is answered with
  status 400 and leaves the committed tables as they were: neither the request nor any row
  is persisted. An upload with the content type \<open>text/csv\<close>, a header that normalizes to
  the expected one and three fields in each of its N data rows, whose commit does not
  raise, persists exactly one new request, \<open>pending\<close>, and exactly N new rows after
  the existing ones, in the order of the file, each \<open>pending\<close>, with the request's id,
  the stripped fields and no output URLs.
\<close>

theorem upload_rows:
  "((\<exists>row\<in>set rows. length row \<noteq> 3) \<longrightarrow>
      (\<exists>e. fst (upload_csv w content_type (header # rows) webhook_url st) = Inl e
           \<and> status_code e = 400)
      \<and> store (snd (upload_csv w content_type (header # rows) webhook_url st)) = store st)
   \<and> (content_type = ''text/csv'' \<and> map normalize header = expected_header
        \<and> (\<forall>row\<in>set rows. length row = 3)
        \<and> \<not> commit_raises w (Suc (tick st))
        \<and> uuid4 w (tick st) \<notin> set (map processing_request.request_id (requests (store st))) \<longrightarrow>
        fst (upload_csv w content_type (header # rows) webhook_url st) =
          Inr (JObj [(''request_id'', JStr (uuid4 w (tick st))),
                     (''message'', JStr ''CSV file uploaded and processing started.'')])
        \<and> (\<exists>job new.
              requests (store (snd (upload_csv w content_type (header # rows) webhook_url st))) =
                requests (store st) @ [job]
              \<and> processing_request.request_id job = uuid4 w (tick st)
              \<and> processing_request.status job = ''pending''
              \<and> completed_at job = None \<and> callback_url job = webhook_url
              \<and> products (store (snd (upload_csv w content_type (header # rows) webhook_url st))) =
                  products (store st) @ new
              \<and> length new = length rows
              \<and> map (\<lambda>p. (product.request_id p, serial_number p, product_name p,
                           input_image_urls p, output_image_urls p, product.status p)) new =
                  map (\<lambda>row. (uuid4 w (tick st), strip (row ! 0), strip (row ! 1),
                             Some (strip (row ! 2)), None, ''pending'')) rows))"
proof (intro conjI impI)
  assume bad: "\<exists>row\<in>set rows. length row \<noteq> 3"
  let ?rid = "uuid4 w (tick st)"
  from add_products_bad [OF bad, of ?rid "[]"] obtain e where
    e: "add_products ?rid rows [] = Inl e" "status_code e = 400"
    by blast
  show "\<exists>e. fst (upload_csv w content_type (header # rows) webhook_url st) = Inl e
           \<and> status_code e = 400"
    using e by (simp add: upload_csv_def Let_def)
  show "store (snd (upload_csv w content_type (header # rows) webhook_url st)) = store st"
    using e by (simp add: upload_csv_def Let_def)
next
  assume ok: "content_type = ''text/csv'' \<and> map normalize header = expected_header
        \<and> (\<forall>row\<in>set rows. length row = 3)
        \<and> \<not> commit_raises w (Suc (tick st))
        \<and> uuid4 w (tick st) \<notin> set (map processing_request.request_id (requests (store st)))"
  let ?rid = "uuid4 w (tick st)"
  let ?mk = "\<lambda>row. \<lparr>product.pk = 0, product.request_id = ?rid,
                          serial_number = strip (row ! 0), product_name = strip (row ! 1),
                          input_image_urls = Some (strip (row ! 2)), output_image_urls = None,
                          product.status = ''pending''\<rparr>"
  let ?job = "\<lparr>processing_request.pk = request_seq (store st),
               processing_request.request_id = ?rid,
               processing_request.status = ''pending'',
               created_at = utcnow w (Suc (tick st)), completed_at = None,
               callback_url = webhook_url\<rparr>"
  let ?new = "assign_pks (product_seq (store st)) (map ?mk rows)"
  from ok have good: "add_products ?rid rows [] = Inr ([] @ map ?mk rows)"
    by (intro add_products_good) simp
  have res: "upload_csv w content_type (header # rows) webhook_url st =
      (Inr (JObj [(''request_id'', JStr ?rid),
                  (''message'', JStr ''CSV file uploaded and processing started.'')]),
       st\<lparr>store := commit_inserts
                      \<lparr>processing_request.pk = 0, processing_request.request_id = ?rid,
                       processing_request.status = ''pending'',
                       created_at = utcnow w (Suc (tick st)), completed_at = None,
                       callback_url = webhook_url\<rparr> (map ?mk rows) (store st),
           tick := Suc (Suc (tick st))\<rparr>)"
    using ok good by (simp add: upload_csv_def Let_def)
  show "fst (upload_csv w content_type (header # rows) webhook_url st) =
          Inr (JObj [(''request_id'', JStr (uuid4 w (tick st))),
                     (''message'', JStr ''CSV file uploaded and processing started.'')])"
    by (simp add: res)
  have fields: "map (\<lambda>p. (product.request_id p, serial_number p, product_name p,
                           input_image_urls p, output_image_urls p, product.status p)) ?new =
                  map (\<lambda>row. (uuid4 w (tick st), strip (row ! 0), strip (row ! 1),
                             Some (strip (row ! 2)), None, ''pending'')) rows"
    unfolding assign_pks_fields by simp
  have len: "length ?new = length rows"
    by (simp add: assign_pks_props(1))
  show "\<exists>job new.
              requests (store (snd (upload_csv w content_type (header # rows) webhook_url st))) =
                requests (store st) @ [job]
              \<and> processing_request.request_id job = uuid4 w (tick st)
              \<and> processing_request.status job = ''pending''
              \<and> completed_at job = None \<and> callback_url job = webhook_url
              \<and> products (store (snd (upload_csv w content_type (header # rows) webhook_url st))) =
                  products (store st) @ new
              \<and> length new = length rows
              \<and> map (\<lambda>p. (product.request_id p, serial_number p, product_name p,
                           input_image_urls p, output_image_urls p, product.status p)) new =
                  map (\<lambda>row. (uuid4 w (tick st), strip (row ! 0), strip (row ! 1),
                             Some (strip (row ! 2)), None, ''pending'')) rows"
    apply (rule exI [of _ ?job])
    apply (rule exI [of _ ?new])
    using fields len apply (simp add: res commit_inserts_def)
    done
qed

lemma normalize_plain_header:
  "normalize ''Product Name'' = ''productname''"
  "normalize ''Input Image Urls'' = ''inputimageurls''"
  by code_simp+

theorem upload_rows_witness:
  "fst (upload_csv demo_world ''text/csv'' short_row_csv None init_state) =
     Inl \<lparr>status_code = 400, detail = ''CSV row does not have exactly 3 columns.''\<rparr>
   \<and> store (snd (upload_csv demo_world ''text/csv'' short_row_csv None init_state)) = empty_db
   \<and> map normalize (hd demo_csv) = expected_header
   \<and> fst (upload_csv demo_world ''text/csv'' demo_csv (Some ''http://hook'') init_state) =
       Inr (JObj [(''request_id'', JStr ''id''),
                  (''message'', JStr ''CSV file uploaded and processing started.'')])
   \<and> map processing_request.status (requests (store demo_uploaded)) = [''pending'']
   \<and> map product.status (products (store demo_uploaded)) = [''pending'', ''pending'']
   \<and> length (products (store demo_uploaded)) = length (tl demo_csv)"
proof -
  have bad: "\<exists>row\<in>set (tl short_row_csv). length row \<noteq> 3"
    by (simp add: short_row_csv_def)
  have s: "short_row_csv = hd short_row_csv # tl short_row_csv"
    by (simp add: short_row_csv_def)
  from upload_rows [where rows = "tl short_row_csv" and header = "hd short_row_csv"
      and w = demo_world and content_type = "''text/csv''" and webhook_url = None
      and st = init_state] bad s
  have 1: "(\<exists>e. fst (upload_csv demo_world ''text/csv'' short_row_csv None init_state) = Inl e
           \<and> status_code e = 400)
      \<and> store (snd (upload_csv demo_world ''text/csv'' short_row_csv None init_state)) = store init_state"
    by simp
  have d: "demo_csv = hd demo_csv # tl demo_csv" by (simp add: demo_csv_def)
  have h: "map normalize (hd demo_csv) = expected_header"
    by (simp add: demo_csv_def normalize_samples expected_header_def)
  have ok: "(\<forall>row\<in>set (tl demo_csv). length row = 3)
        \<and> \<not> commit_raises demo_world (Suc (tick init_state))
        \<and> uuid4 demo_world (tick init_state) \<notin>
             set (map processing_request.request_id (requests (store init_state)))"
    by (simp add: demo_csv_def demo_world_def init_state_def empty_db_def)
  from upload_rows [where rows = "tl demo_csv" and header = "hd demo_csv"
      and w = demo_world and content_type = "''text/csv''" and webhook_url = "Some ''http://hook''"
      and st = init_state] h ok d
  have 2: "fst (upload_csv demo_world ''text/csv'' demo_csv (Some ''http://hook'') init_state) =
          Inr (JObj [(''request_id'', JStr (uuid4 demo_world (tick init_state))),
                     (''message'', JStr ''CSV file uploaded and processing started.'')])"
    by simp
  have 3: "fst (upload_csv demo_world ''text/csv'' short_row_csv None init_state) =
     Inl \<lparr>status_code = 400, detail = ''CSV row does not have exactly 3 columns.''\<rparr>"
    by (simp add: upload_csv_def short_row_csv_def normalize_samples normalize_plain_header
          expected_header_def strip_def is_space_def Let_def)
  show ?thesis
    using 1 2 3 h
    by (simp add: demo_uploaded_eq demo_csv_def demo_world_def init_state_def)
qed

subsection \<open>C6: the header check\<close>

text \<open>
  C6. The three sample headers of the claim normalize to the expected header. The
  docstring of \<open>normalize\<close> and the claim say that every non-alphanumeric character
  is removed; the pattern \<open>\W+\<close> keeps the underscore. For the header
  \<open>S_No, Product Name, Input Image Urls\<close> the documented normalization gives the
  expected header, the program's gives \<open>s_no\<close> for the first column, and the upload is
  answered with status 400.
\<close>

theorem underscore_header_rejected:
  "map normalize [''S. No'', '' Product-Name '', ''InputImageURLs''] = expected_header
   \<and> map normalize_documented [''S_No'', ''Product Name'', ''Input Image Urls''] = expected_header
   \<and> map normalize [''S_No'', ''Product Name'', ''Input Image Urls''] =
       [''s_no'', ''productname'', ''inputimageurls'']
   \<and> upload_csv w ''text/csv'' ([''S_No'', ''Product Name'', ''Input Image Urls''] # rows)
         webhook_url st =
       (Inl \<lparr>status_code = 400,
             detail = ''Invalid CSV header format. Expected header: S. No, Product Name, Input Image Urls''\<rparr>,
        st)"
proof -
  have a: "map normalize [''S. No'', '' Product-Name '', ''InputImageURLs''] = expected_header"
    by code_simp
  have d: "map normalize_documented [''S_No'', ''Product Name'', ''Input Image Urls''] = expected_header"
    by code_simp
  have n: "map normalize [''S_No'', ''Product Name'', ''Input Image Urls''] =
       [''s_no'', ''productname'', ''inputimageurls'']"
    by code_simp
  have "map normalize [''S_No'', ''Product Name'', ''Input Image Urls''] \<noteq> expected_header"
    unfolding n by (simp add: expected_header_def)
  then have "upload_csv w ''text/csv'' ([''S_No'', ''Product Name'', ''Input Image Urls''] # rows)
         webhook_url st =
       (Inl \<lparr>status_code = 400,
             detail = ''Invalid CSV header format. Expected header: S. No, Product Name, Input Image Urls''\<rparr>,
        st)"
    by (simp add: upload_csv_def del: list.map)
  then show ?thesis using a d n by blast
qed

end
